theory Spec2Isabelle
  imports Main "HOL-Library.Word"
begin

section \<open>Lock-free stacks of \<open>lock_free.cpp\<close>: an interleaving model\<close>

text \<open>
  The three stack classes of \<open>src/lock_free.cpp\<close> that the specification is about are
  embedded as small-step machines. A configuration holds the shared memory (the atomic
  \<open>head\<close>, the heap of nodes, the global hazard table and retire list) and, for every
  thread identity, the thread's private state: a program counter that names the next
  access to shared memory together with the locals live at that point, the calls the
  thread still has to make, and the outcomes of the calls it has finished.

  One step executes one access to shared memory (an atomic load, store, exchange,
  compare-exchange or fetch-add, a \<open>new\<close>, a \<open>delete\<close>, or a plain read or write of the
  fields of one object) followed by the thread-local computation up to the next such
  access. The entry into a call and the throw of a constructor that found no slot are
  steps of their own, without an access. A schedule is a list of events \<open>(t, fault)\<close>: thread \<open>t\<close> takes its next step, and
  \<open>fault\<close> is the outcome the environment decides at that step: \<open>new\<close> throws
  \<open>std::bad_alloc\<close>, or \<open>compare_exchange_weak\<close> fails spuriously. Steps that are neither
  ignore the flag. All atomic accesses are interleaved sequentially consistently; the
  weaker memory orders named in the reference-counted variant are not modelled.

  Addresses are natural numbers. \<open>new\<close> hands out the address \<open>brk\<close> and advances it, so an
  address is never handed out twice; \<open>delete\<close> removes the object from the heap.
  Dereferencing an address that holds no object (a use after free) and deleting it
  again are undefined behaviour in C++: the thread then moves to the program counter
  \<open>UB\<close> and stays there.

  Names follow the source. \<open>next\<close> is a keyword of the proof language and \<open>id\<close> a constant
  of the logic, so the fields \<open>next\<close> are \<open>nxt\<close>, \<open>rf_next\<close> and \<open>rnext\<close>, and \<open>id\<close> is
  \<open>owner_id\<close>. The members and program counters of \<open>lock_free_stack_with_hazard\<close> carry
  the prefix \<open>hz_\<close> or \<open>H\<close>, those of \<open>lock_free_stack_rf\<close> the prefix \<open>rf_\<close> or \<open>R\<close>, where
  the three classes use the same name.
\<close>

type_synonym addr = nat
type_synonym tid = nat
type_synonym event = "tid \<times> bool"

datatype error = AllocationFailure | ResourcesExhausted

text \<open>
  The outcome of a finished call: \<open>push\<close> returns \<open>void\<close>, \<open>pop\<close> returns a
  \<open>std::shared_ptr<T>\<close> (\<open>None\<close> is the null pointer, the result "empty"), and either may
  leave by an exception. \<open>Returned\<close> is the return of one of the free functions of the
  hazard-pointer registry, which return nothing.
\<close>

datatype 'a outcome = Pushed | Popped "'a option" | Threw error | Returned

datatype 'a call = Push 'a | Pop

subsection \<open>\<open>lock_free_stack\<close> (lines 38--65)\<close>

text \<open>
  \<open>struct node { std::shared_ptr<T> data; node* next; }\<close>. The constructor fills \<open>data\<close>
  with \<open>make_shared<T>(data_)\<close> and leaves \<open>next\<close> indeterminate; the model writes \<open>None\<close>
  there until \<open>push\<close> assigns it.
\<close>

record 'a node =
  data :: "'a option"
  nxt :: "addr option"

datatype 'a lfs_pc =
    Idle
  | Push_new 'a
  | Push_load addr
  | Push_cas addr
  | Pop_load
  | Pop_next addr
  | Pop_cas addr "addr option"
  | Pop_data addr
  | UB

record 'a lfs_thread =
  pc :: "'a lfs_pc"
  todo :: "'a call list"
  results :: "'a outcome list"

record 'a lfs =
  head :: "addr option"
  heap :: "addr \<rightharpoonup> 'a node"
  brk :: addr
  threads :: "tid \<Rightarrow> 'a lfs_thread"

definition lfs_goto :: "tid \<Rightarrow> 'a lfs_pc \<Rightarrow> 'a lfs \<Rightarrow> 'a lfs" where
  "lfs_goto t p s = s\<lparr>threads := (threads s)(t := (threads s t)\<lparr>pc := p\<rparr>)\<rparr>"

definition lfs_return :: "tid \<Rightarrow> 'a outcome \<Rightarrow> 'a lfs \<Rightarrow> 'a lfs" where
  "lfs_return t r s =
     s\<lparr>threads := (threads s)(t := (threads s t)\<lparr>pc := Idle, results := results (threads s t) @ [r]\<rparr>)\<rparr>"

text \<open>
  The step of thread \<open>t\<close>. The program counters follow the source:
  \<^item> \<open>Idle\<close>: between calls; the step enters the next call of \<open>todo\<close>.
  \<^item> \<open>Push_new v\<close>: line 54, \<open>new node{data}\<close>; throws when the allocation fails.
  \<^item> \<open>Push_load n\<close>: line 55, \<open>new_node->next = head.load()\<close>.
  \<^item> \<open>Push_cas n\<close>: line 56, \<open>head.compare_exchange_weak(new_node->next, new_node)\<close>;
    on failure the expected value \<open>new_node->next\<close> is overwritten with the current head
    and the loop repeats.
  \<^item> \<open>Pop_load\<close>: line 60, \<open>old_head = head.load()\<close>; a null \<open>old_head\<close> leaves the loop and
    returns the null pointer (line 63).
  \<^item> \<open>Pop_next p\<close>: line 62, the read of \<open>old_head->next\<close>.
  \<^item> \<open>Pop_cas p n\<close>: line 62, \<open>head.compare_exchange_weak(old_head, old_head->next)\<close>; on
    failure \<open>old_head\<close> is overwritten with the current head and the loop condition is
    evaluated again.
  \<^item> \<open>Pop_data p\<close>: line 63, the read of \<open>old_head->data\<close> that is returned.
\<close>

fun lfs_step :: "event \<Rightarrow> 'a lfs \<Rightarrow> 'a lfs" where
  "lfs_step (t, fault) s =
     (case pc (threads s t) of
        Idle \<Rightarrow>
          (case todo (threads s t) of
             [] \<Rightarrow> s
           | Push v # cs \<Rightarrow>
               s\<lparr>threads := (threads s)(t := (threads s t)\<lparr>pc := Push_new v, todo := cs\<rparr>)\<rparr>
           | Pop # cs \<Rightarrow>
               s\<lparr>threads := (threads s)(t := (threads s t)\<lparr>pc := Pop_load, todo := cs\<rparr>)\<rparr>)
      | Push_new v \<Rightarrow>
          if fault then lfs_return t (Threw AllocationFailure) s
          else lfs_goto t (Push_load (brk s))
                 (s\<lparr>heap := (heap s)(brk s \<mapsto> \<lparr>data = Some v, nxt = None\<rparr>), brk := Suc (brk s)\<rparr>)
      | Push_load n \<Rightarrow>
          (case heap s n of
             None \<Rightarrow> lfs_goto t UB s
           | Some nd \<Rightarrow> lfs_goto t (Push_cas n) (s\<lparr>heap := (heap s)(n \<mapsto> nd\<lparr>nxt := head s\<rparr>)\<rparr>))
      | Push_cas n \<Rightarrow>
          (case heap s n of
             None \<Rightarrow> lfs_goto t UB s
           | Some nd \<Rightarrow>
               if head s = nxt nd \<and> \<not> fault then lfs_return t Pushed (s\<lparr>head := Some n\<rparr>)
               else lfs_goto t (Push_cas n) (s\<lparr>heap := (heap s)(n \<mapsto> nd\<lparr>nxt := head s\<rparr>)\<rparr>))
      | Pop_load \<Rightarrow>
          (case head s of
             None \<Rightarrow> lfs_return t (Popped None) s
           | Some p \<Rightarrow> lfs_goto t (Pop_next p) s)
      | Pop_next p \<Rightarrow>
          (case heap s p of
             None \<Rightarrow> lfs_goto t UB s
           | Some nd \<Rightarrow> lfs_goto t (Pop_cas p (nxt nd)) s)
      | Pop_cas p n \<Rightarrow>
          if head s = Some p \<and> \<not> fault then lfs_goto t (Pop_data p) (s\<lparr>head := n\<rparr>)
          else (case head s of
                  None \<Rightarrow> lfs_return t (Popped None) s
                | Some p' \<Rightarrow> lfs_goto t (Pop_next p') s)
      | Pop_data p \<Rightarrow>
          (case heap s p of
             None \<Rightarrow> lfs_goto t UB s
           | Some nd \<Rightarrow> lfs_return t (Popped (data nd)) s)
      | UB \<Rightarrow> s)"

primrec lfs_exec :: "event list \<Rightarrow> 'a lfs \<Rightarrow> 'a lfs" where
  "lfs_exec [] s = s"
| "lfs_exec (e # es) s = lfs_exec es (lfs_step e s)"

text \<open>
  A stack as its constructor leaves it (an empty head, no node allocated), with the calls
  each thread is going to make.
\<close>

definition lfs_init :: "(tid \<Rightarrow> 'a call list) \<Rightarrow> 'a lfs" where
  "lfs_init calls =
     \<lparr>head = None, heap = Map.empty, brk = 0,
      threads = (\<lambda>t. \<lparr>pc = Idle, todo = calls t, results = []\<rparr>)\<rparr>"

subsection \<open>The hazard-pointer registry and the retire list (lines 153--251)\<close>

text \<open>
  \<open>struct hazard_pointer { std::atomic<std::thread::id> id; std::atomic<void*> pointer; }\<close>.
  The default-constructed \<open>std::thread::id\<close>, which is the identity of no thread, is \<open>None\<close>.
  The global array \<open>hazard_pointers[max_hazard_pointers]\<close> is a function of the index; only
  indices below \<open>max_hazard_pointers\<close> are in the array and only those are ever accessed.
\<close>

definition max_hazard_pointers :: nat where
  "max_hazard_pointers = 100"

record hazard_pointer =
  owner_id :: "tid option"
  pointer :: "addr option"

text \<open>
  \<open>struct data_to_reclaim { void* data; std::function<void(void*)> deleter; data_to_reclaim* next; }\<close>.
  The only deleter ever stored is \<open>do_delete<node>\<close>, so the field is left out and the
  destructor deletes the node \<open>data\<close> points to.
\<close>

record data_to_reclaim =
  rdata :: "addr option"
  rnext :: "addr option"

text \<open>Lines 227--229: the function ignores its argument and reads no shared memory.\<close>

definition outstanding_hazard_pointers_for :: "addr option \<Rightarrow> bool" where
  "outstanding_hazard_pointers_for p = False"

subsection \<open>\<open>lock_free_stack_with_hazard\<close> (lines 253--300)\<close>

text \<open>
  The class has \<open>pop\<close> only, and its \<open>head\<close> is private. Besides \<open>pop\<close>, a thread can end
  (\<open>Thread_exit\<close>), which runs the destructor of its \<open>thread_local static hp_owner hazard\<close>
  when that object was constructed.

  The registry and the retire list are not members of the class: \<open>hazard_pointers\<close>,
  \<open>nodes_to_reclaim\<close>, \<open>get_hazard_pointer_for_current_thread\<close>, \<open>reclaim_later\<close> and
  \<open>delete_nodes_with_no_hazards\<close> are declared at namespace scope, so any code of the
  program can call them, on objects of its own. A thread can therefore also
  \<^item> announce a pointer, \<open>get_hazard_pointer_for_current_thread().store(p)\<close>
    (\<open>Store_hazard p\<close>), as \<open>pop\<close> does in lines 269 and 277;
  \<^item> call \<open>reclaim_later(p)\<close> (\<open>Reclaim_later p\<close>);
  \<^item> call \<open>delete_nodes_with_no_hazards()\<close> (\<open>Delete_nodes_with_no_hazards\<close>).
  The objects handed to \<open>reclaim_later\<close> live in the same heap as the nodes; the registry
  never looks into them.
\<close>

datatype hz_call =
    HPop
  | Thread_exit
  | Store_hazard "addr option"
  | Reclaim_later "addr option"
  | Delete_nodes_with_no_hazards

text \<open>
  \<open>reclaim_later\<close> and \<open>delete_nodes_with_no_hazards\<close> are called from \<open>pop\<close> (lines 290 and
  296), which has its local \<open>res\<close> to return afterwards, or directly.
\<close>

datatype 'a caller = In_pop "'a option" | Direct

text \<open>
  \<open>Add_load\<close> and \<open>Add_cas\<close> are the two accesses of \<open>add_to_reclaim_list\<close>. Their last
  argument tells where the function was called from: \<open>None\<close> from \<open>reclaim_later\<close>,
  \<open>Some next\<close> from the loop of \<open>delete_nodes_with_no_hazards\<close> with the local \<open>next\<close>.
\<close>

datatype 'a hz_pc =
    HIdle
  | Hp_scan nat
  | HPop_load
  | Hp_store "addr option"
  | HPop_reload "addr option"
  | HPop_next addr
  | HPop_cas addr "addr option"
  | Hp_clear "addr option"
  | HPop_swap addr
  | Reclaim_new "addr option" "'a caller"
  | Delete_head addr "'a option"
  | Add_load addr "'a caller" "addr option option"
  | Add_cas addr "'a caller" "addr option option"
  | Scan_exchange "'a caller"
  | Scan_entry addr "'a caller"
  | Scan_delete addr "addr option" "'a caller"
  | Exit_clear
  | Exit_release
  | Client_scan nat "addr option"
  | Client_store "addr option"
  | HUB

record 'a hz_thread =
  hz_pc :: "'a hz_pc"
  hz_todo :: "hz_call list"
  hz_results :: "'a outcome list"
  hazard :: "nat option"

record 'a hzs =
  hz_head :: "addr option"
  hz_heap :: "addr \<rightharpoonup> 'a node"
  reclaim_heap :: "addr \<rightharpoonup> data_to_reclaim"
  hz_brk :: addr
  hazard_pointers :: "nat \<Rightarrow> hazard_pointer"
  nodes_to_reclaim :: "addr option"
  hz_threads :: "tid \<Rightarrow> 'a hz_thread"

definition hz_goto :: "tid \<Rightarrow> 'a hz_pc \<Rightarrow> 'a hzs \<Rightarrow> 'a hzs" where
  "hz_goto t p s = s\<lparr>hz_threads := (hz_threads s)(t := (hz_threads s t)\<lparr>hz_pc := p\<rparr>)\<rparr>"

definition hz_return :: "tid \<Rightarrow> 'a outcome \<Rightarrow> 'a hzs \<Rightarrow> 'a hzs" where
  "hz_return t r s =
     s\<lparr>hz_threads := (hz_threads s)
          (t := (hz_threads s t)\<lparr>hz_pc := HIdle, hz_results := hz_results (hz_threads s t) @ [r]\<rparr>)\<rparr>"

text \<open>\<open>hp.store(p)\<close> on the slot \<open>i\<close> that \<open>get_hazard_pointer_for_current_thread\<close> returned.\<close>

definition hp_store :: "nat \<Rightarrow> addr option \<Rightarrow> 'a hzs \<Rightarrow> 'a hzs" where
  "hp_store i p s = s\<lparr>hazard_pointers := (hazard_pointers s)(i := (hazard_pointers s i)\<lparr>pointer := p\<rparr>)\<rparr>"

text \<open>
  The loop of \<open>delete_nodes_with_no_hazards\<close> (line 238) with \<open>current\<close> set: when it is null
  the function returns, and \<open>pop\<close>, when it was the caller, returns \<open>res\<close> (line 298);
  otherwise the entry is read.
\<close>

definition scan_loop :: "tid \<Rightarrow> addr option \<Rightarrow> 'a caller \<Rightarrow> 'a hzs \<Rightarrow> 'a hzs" where
  "scan_loop t current c s =
     (case current of
        None \<Rightarrow> (case c of In_pop res \<Rightarrow> hz_return t (Popped res) s | Direct \<Rightarrow> hz_return t Returned s)
      | Some e \<Rightarrow> hz_goto t (Scan_entry e c) s)"

text \<open>
  The step of thread \<open>t\<close>:
  \<^item> \<open>HIdle\<close>: the step enters the next call. \<open>pop\<close> starts with
    \<open>get_hazard_pointer_for_current_thread()\<close> (line 269), which constructs the thread's
    \<open>hp_owner\<close> on the first call and on every call after a construction that threw; so
    does \<open>Store_hazard\<close>.
  \<^item> \<open>Hp_scan i\<close>: the loop of the constructor (lines 169--182) at index \<open>i\<close>. Below
    \<open>max_hazard_pointers\<close> it is the \<open>compare_exchange_strong\<close> of line 172 on
    \<open>hazard_pointers[i].id\<close>, expecting the default identity; at \<open>max_hazard_pointers\<close> the
    loop is left with \<open>hp\<close> null and line 181 throws.
  \<^item> \<open>HPop_load\<close>: line 270.
  \<^item> \<open>Hp_store p\<close>: lines 276--277, \<open>temp = old_head; hp.store(old_head)\<close>.
  \<^item> \<open>HPop_reload temp\<close>: line 278, \<open>old_head = head.load()\<close>, then the tests of lines 279
    and 281.
  \<^item> \<open>HPop_next p\<close>: the read of \<open>old_head->next\<close> in line 282.
  \<^item> \<open>HPop_cas p n\<close>: \<open>head.compare_exchange_strong(old_head, old_head->next)\<close> in
    line 282.
  \<^item> \<open>Hp_clear old_head\<close>: line 283, then the test of line 285.
  \<^item> \<open>HPop_swap p\<close>: line 287, then the test of line 288.
  \<^item> \<open>Reclaim_new p c\<close>: line 233, \<open>new data_to_reclaim(data)\<close>.
  \<^item> \<open>Delete_head p res\<close>: line 294, \<open>delete old_head\<close>.
  \<^item> \<open>Add_load e c k\<close>, \<open>Add_cas e c k\<close>: lines 224 and 225. After the compare-exchange that
    succeeds, \<open>reclaim_later\<close> returns: \<open>pop\<close> goes on to line 296, a direct call is over.
  \<^item> \<open>Scan_exchange c\<close>: line 237.
  \<^item> \<open>Scan_entry e c\<close>: the reads of \<open>current->next\<close> and \<open>current->data\<close> (lines 240, 241).
  \<^item> \<open>Scan_delete e n c\<close>: line 243, \<open>delete current\<close>: the destructor deletes the object
    \<open>current->data\<close> (deleting a null pointer does nothing), then the entry is freed.
  \<^item> \<open>Exit_clear\<close>, \<open>Exit_release\<close>: lines 190 and 191.
  \<^item> \<open>Client_scan i p\<close>: the loop of the constructor (lines 169--182) at index \<open>i\<close> again,
    when \<open>get_hazard_pointer_for_current_thread\<close> was called for \<open>Store_hazard p\<close> and not by
    \<open>pop\<close>: it differs from \<open>Hp_scan i\<close> in what follows the acquisition.
  \<^item> \<open>Client_store p\<close>: the \<open>store(p)\<close> on the reference that
    \<open>get_hazard_pointer_for_current_thread\<close> returned.
\<close>

fun hz_step :: "event \<Rightarrow> 'a hzs \<Rightarrow> 'a hzs" where
  "hz_step (t, fault) s =
     (case hz_pc (hz_threads s t) of
        HIdle \<Rightarrow>
          (case hz_todo (hz_threads s t) of
             [] \<Rightarrow> s
           | HPop # cs \<Rightarrow>
               s\<lparr>hz_threads := (hz_threads s)
                    (t := (hz_threads s t)
                       \<lparr>hz_pc := (if hazard (hz_threads s t) = None then Hp_scan 0 else HPop_load),
                        hz_todo := cs\<rparr>)\<rparr>
           | Thread_exit # cs \<Rightarrow>
               s\<lparr>hz_threads := (hz_threads s)
                    (t := (hz_threads s t)
                       \<lparr>hz_pc := (if hazard (hz_threads s t) = None then HIdle else Exit_clear),
                        hz_todo := cs\<rparr>)\<rparr>
           | Store_hazard p # cs \<Rightarrow>
               s\<lparr>hz_threads := (hz_threads s)
                    (t := (hz_threads s t)
                       \<lparr>hz_pc := (if hazard (hz_threads s t) = None then Client_scan 0 p
                                 else Client_store p),
                        hz_todo := cs\<rparr>)\<rparr>
           | Reclaim_later p # cs \<Rightarrow>
               s\<lparr>hz_threads := (hz_threads s)
                    (t := (hz_threads s t)\<lparr>hz_pc := Reclaim_new p Direct, hz_todo := cs\<rparr>)\<rparr>
           | Delete_nodes_with_no_hazards # cs \<Rightarrow>
               s\<lparr>hz_threads := (hz_threads s)
                    (t := (hz_threads s t)\<lparr>hz_pc := Scan_exchange Direct, hz_todo := cs\<rparr>)\<rparr>)
      | Hp_scan i \<Rightarrow>
          if i < max_hazard_pointers then
            (if owner_id (hazard_pointers s i) = None then
               s\<lparr>hazard_pointers := (hazard_pointers s)(i := (hazard_pointers s i)\<lparr>owner_id := Some t\<rparr>),
                 hz_threads := (hz_threads s)(t := (hz_threads s t)\<lparr>hz_pc := HPop_load, hazard := Some i\<rparr>)\<rparr>
             else hz_goto t (Hp_scan (Suc i)) s)
          else hz_return t (Threw ResourcesExhausted) s
      | HPop_load \<Rightarrow> hz_goto t (Hp_store (hz_head s)) s
      | Hp_store p \<Rightarrow>
          (case hazard (hz_threads s t) of
             None \<Rightarrow> hz_goto t HUB s
           | Some i \<Rightarrow> hz_goto t (HPop_reload p) (hp_store i p s))
      | HPop_reload temp \<Rightarrow>
          if hz_head s \<noteq> temp then hz_goto t (Hp_store (hz_head s)) s
          else (case hz_head s of
                  None \<Rightarrow> hz_goto t (Hp_clear None) s
                | Some p \<Rightarrow> hz_goto t (HPop_next p) s)
      | HPop_next p \<Rightarrow>
          (case hz_heap s p of
             None \<Rightarrow> hz_goto t HUB s
           | Some nd \<Rightarrow> hz_goto t (HPop_cas p (nxt nd)) s)
      | HPop_cas p n \<Rightarrow>
          if hz_head s = Some p then hz_goto t (Hp_clear (Some p)) (s\<lparr>hz_head := n\<rparr>)
          else hz_goto t (Hp_store (hz_head s)) s
      | Hp_clear old_head \<Rightarrow>
          (case hazard (hz_threads s t) of
             None \<Rightarrow> hz_goto t HUB s
           | Some i \<Rightarrow>
               (case old_head of
                  None \<Rightarrow> hz_return t (Popped None) (hp_store i None s)
                | Some p \<Rightarrow> hz_goto t (HPop_swap p) (hp_store i None s)))
      | HPop_swap p \<Rightarrow>
          (case hz_heap s p of
             None \<Rightarrow> hz_goto t HUB s
           | Some nd \<Rightarrow>
               hz_goto t
                 (if outstanding_hazard_pointers_for (Some p)
                  then Reclaim_new (Some p) (In_pop (data nd))
                  else Delete_head p (data nd))
                 (s\<lparr>hz_heap := (hz_heap s)(p \<mapsto> nd\<lparr>data := None\<rparr>)\<rparr>))
      | Reclaim_new p c \<Rightarrow>
          if fault then hz_return t (Threw AllocationFailure) s
          else hz_goto t (Add_load (hz_brk s) c None)
                 (s\<lparr>reclaim_heap := (reclaim_heap s)(hz_brk s \<mapsto> \<lparr>rdata = p, rnext = None\<rparr>),
                    hz_brk := Suc (hz_brk s)\<rparr>)
      | Delete_head p res \<Rightarrow>
          (case hz_heap s p of
             None \<Rightarrow> hz_goto t HUB s
           | Some nd \<Rightarrow> hz_goto t (Scan_exchange (In_pop res)) (s\<lparr>hz_heap := (hz_heap s)(p := None)\<rparr>))
      | Add_load e c k \<Rightarrow>
          (case reclaim_heap s e of
             None \<Rightarrow> hz_goto t HUB s
           | Some en \<Rightarrow>
               hz_goto t (Add_cas e c k)
                 (s\<lparr>reclaim_heap := (reclaim_heap s)(e \<mapsto> en\<lparr>rnext := nodes_to_reclaim s\<rparr>)\<rparr>))
      | Add_cas e c k \<Rightarrow>
          (case reclaim_heap s e of
             None \<Rightarrow> hz_goto t HUB s
           | Some en \<Rightarrow>
               if nodes_to_reclaim s = rnext en \<and> \<not> fault then
                 (case k of
                    None \<Rightarrow>
                      (case c of
                         In_pop res \<Rightarrow> hz_goto t (Scan_exchange c) (s\<lparr>nodes_to_reclaim := Some e\<rparr>)
                       | Direct \<Rightarrow> hz_return t Returned (s\<lparr>nodes_to_reclaim := Some e\<rparr>))
                  | Some n \<Rightarrow> scan_loop t n c (s\<lparr>nodes_to_reclaim := Some e\<rparr>))
               else hz_goto t (Add_cas e c k)
                      (s\<lparr>reclaim_heap := (reclaim_heap s)(e \<mapsto> en\<lparr>rnext := nodes_to_reclaim s\<rparr>)\<rparr>))
      | Scan_exchange c \<Rightarrow> scan_loop t (nodes_to_reclaim s) c (s\<lparr>nodes_to_reclaim := None\<rparr>)
      | Scan_entry e c \<Rightarrow>
          (case reclaim_heap s e of
             None \<Rightarrow> hz_goto t HUB s
           | Some en \<Rightarrow>
               if \<not> outstanding_hazard_pointers_for (rdata en)
               then hz_goto t (Scan_delete e (rnext en) c) s
               else hz_goto t (Add_load e c (Some (rnext en))) s)
      | Scan_delete e n c \<Rightarrow>
          (case reclaim_heap s e of
             None \<Rightarrow> hz_goto t HUB s
           | Some en \<Rightarrow>
               (case rdata en of
                  None \<Rightarrow> scan_loop t n c (s\<lparr>reclaim_heap := (reclaim_heap s)(e := None)\<rparr>)
                | Some p \<Rightarrow>
                    (case hz_heap s p of
                       None \<Rightarrow> hz_goto t HUB s
                     | Some nd \<Rightarrow>
                         scan_loop t n c
                           (s\<lparr>hz_heap := (hz_heap s)(p := None),
                              reclaim_heap := (reclaim_heap s)(e := None)\<rparr>))))
      | Exit_clear \<Rightarrow>
          (case hazard (hz_threads s t) of
             None \<Rightarrow> hz_goto t HUB s
           | Some i \<Rightarrow> hz_goto t Exit_release (hp_store i None s))
      | Exit_release \<Rightarrow>
          (case hazard (hz_threads s t) of
             None \<Rightarrow> hz_goto t HUB s
           | Some i \<Rightarrow>
               s\<lparr>hazard_pointers := (hazard_pointers s)(i := (hazard_pointers s i)\<lparr>owner_id := None\<rparr>),
                 hz_threads := (hz_threads s)(t := (hz_threads s t)\<lparr>hz_pc := HIdle, hazard := None\<rparr>)\<rparr>)
      | Client_scan i p \<Rightarrow>
          if i < max_hazard_pointers then
            (if owner_id (hazard_pointers s i) = None then
               s\<lparr>hazard_pointers := (hazard_pointers s)(i := (hazard_pointers s i)\<lparr>owner_id := Some t\<rparr>),
                 hz_threads := (hz_threads s)
                   (t := (hz_threads s t)\<lparr>hz_pc := Client_store p, hazard := Some i\<rparr>)\<rparr>
             else hz_goto t (Client_scan (Suc i) p) s)
          else hz_return t (Threw ResourcesExhausted) s
      | Client_store p \<Rightarrow>
          (case hazard (hz_threads s t) of
             None \<Rightarrow> hz_goto t HUB s
           | Some i \<Rightarrow> hz_return t Returned (hp_store i p s))
      | HUB \<Rightarrow> s)"

primrec hz_exec :: "event list \<Rightarrow> 'a hzs \<Rightarrow> 'a hzs" where
  "hz_exec [] s = s"
| "hz_exec (e # es) s = hz_exec es (hz_step e s)"

text \<open>
  The hazard table and the retire list as static initialisation leaves them, a stack with
  the given head, the objects allocated so far (the nodes of the stack, and what else the
  program has allocated with \<open>new\<close>), and the calls each thread is going to make.
\<close>

definition hz_init :: "addr option \<Rightarrow> (addr \<rightharpoonup> 'a node) \<Rightarrow> addr \<Rightarrow> (tid \<Rightarrow> hz_call list) \<Rightarrow> 'a hzs" where
  "hz_init h nodes b calls =
     \<lparr>hz_head = h, hz_heap = nodes, reclaim_heap = Map.empty, hz_brk = b,
      hazard_pointers = (\<lambda>i. \<lparr>owner_id = None, pointer = None\<rparr>),
      nodes_to_reclaim = None,
      hz_threads = (\<lambda>t. \<lparr>hz_pc = HIdle, hz_todo = calls t, hz_results = [], hazard = None\<rparr>)\<rparr>"

subsection \<open>\<open>lock_free_stack_rf\<close> (lines 302--387)\<close>

text \<open>
  C++ \<open>int\<close> is taken to be 32 bits wide. \<open>std::atomic<int>::fetch_add\<close> wraps around in
  two's complement; the plain \<open>int\<close> arithmetic of lines 330 and 371--373 is modelled
  with the same wrap-around, where C++ leaves a signed overflow undefined.
\<close>

type_synonym cint = "32 word"

record counted_node_ptr =
  external_count :: cint
  ptr :: "addr option"

text \<open>
  The constructor of \<open>node\<close> sets \<open>internal_count\<close> to 0 and leaves \<open>next\<close> indeterminate; the
  model writes a null pointer with count 0 there until \<open>push\<close> assigns it.
\<close>

record 'a rf_node =
  rf_data :: "'a option"
  internal_count :: cint
  rf_next :: counted_node_ptr

datatype 'a rf_pc =
    RIdle
  | RPush_new 'a
  | RPush_load addr
  | RPush_cas addr
  | RPop_load
  | Inc_cas counted_node_ptr
  | RPop_next addr counted_node_ptr
  | RPop_cas addr counted_node_ptr counted_node_ptr
  | RPop_swap addr counted_node_ptr
  | RPop_fetch_add addr counted_node_ptr "'a option"
  | RPop_delete addr "'a option"
  | RPop_dec addr counted_node_ptr
  | RPop_dec_load addr counted_node_ptr
  | RPop_dec_delete addr counted_node_ptr
  | RUB

record 'a rf_thread =
  rf_pc :: "'a rf_pc"
  rf_todo :: "'a call list"
  rf_results :: "'a outcome list"

record 'a rfs =
  rf_head :: counted_node_ptr
  rf_heap :: "addr \<rightharpoonup> 'a rf_node"
  rf_brk :: addr
  rf_threads :: "tid \<Rightarrow> 'a rf_thread"

definition rf_goto :: "tid \<Rightarrow> 'a rf_pc \<Rightarrow> 'a rfs \<Rightarrow> 'a rfs" where
  "rf_goto t p s = s\<lparr>rf_threads := (rf_threads s)(t := (rf_threads s t)\<lparr>rf_pc := p\<rparr>)\<rparr>"

definition rf_return :: "tid \<Rightarrow> 'a outcome \<Rightarrow> 'a rfs \<Rightarrow> 'a rfs" where
  "rf_return t r s =
     s\<lparr>rf_threads := (rf_threads s)
          (t := (rf_threads s t)\<lparr>rf_pc := RIdle, rf_results := rf_results (rf_threads s t) @ [r]\<rparr>)\<rparr>"

text \<open>
  The step of thread \<open>t\<close>:
  \<^item> \<open>RPush_new v\<close>: line 346, \<open>new node(data)\<close>; line 347 sets the local
    \<open>new_node.external_count\<close> to 1.
  \<^item> \<open>RPush_load n\<close>: line 348, \<open>new_node.ptr->next = head.load()\<close>.
  \<^item> \<open>RPush_cas n\<close>: line 349, \<open>head.compare_exchange_weak(new_node.ptr->next, new_node)\<close>.
  \<^item> \<open>RPop_load\<close>: line 356.
  \<^item> \<open>Inc_cas old_counter\<close>: \<open>increase_head_count\<close>, lines 329--336: the
    \<open>compare_exchange_strong\<close> of \<open>head\<close> from \<open>old_counter\<close> to \<open>old_counter\<close> with its
    \<open>external_count\<close> incremented. On success \<open>old_counter.external_count\<close> takes the
    incremented count and \<open>pop\<close> goes on with lines 361--362; on failure \<open>old_counter\<close> is
    overwritten with the current head and the loop repeats.
  \<^item> \<open>RPop_next p old_head\<close>: the read of \<open>ptr->next\<close> in line 367.
  \<^item> \<open>RPop_cas p old_head n\<close>: line 366, \<open>head.compare_exchange_strong(old_head, ptr->next)\<close>;
    on failure \<open>old_head\<close> is overwritten with the current head, \<open>ptr\<close> is not.
  \<^item> \<open>RPop_swap p old_head\<close>: line 370, \<open>res.swap(ptr->data)\<close>.
  \<^item> \<open>RPop_fetch_add p old_head res\<close>: lines 371--373, \<open>count_increase\<close> and the
    \<open>fetch_add\<close>, whose result is the value before the addition.
  \<^item> \<open>RPop_delete p res\<close>: line 375, then the return of line 377.
  \<^item> \<open>RPop_dec p old_head\<close>: line 379, \<open>ptr->internal_count.fetch_add(-1)\<close>.
  \<^item> \<open>RPop_dec_load p old_head\<close>: line 382.
  \<^item> \<open>RPop_dec_delete p old_head\<close>: line 383, then the next round of the loop of line 358.
\<close>

fun rf_step :: "event \<Rightarrow> 'a rfs \<Rightarrow> 'a rfs" where
  "rf_step (t, fault) s =
     (case rf_pc (rf_threads s t) of
        RIdle \<Rightarrow>
          (case rf_todo (rf_threads s t) of
             [] \<Rightarrow> s
           | Push v # cs \<Rightarrow>
               s\<lparr>rf_threads := (rf_threads s)(t := (rf_threads s t)\<lparr>rf_pc := RPush_new v, rf_todo := cs\<rparr>)\<rparr>
           | Pop # cs \<Rightarrow>
               s\<lparr>rf_threads := (rf_threads s)(t := (rf_threads s t)\<lparr>rf_pc := RPop_load, rf_todo := cs\<rparr>)\<rparr>)
      | RPush_new v \<Rightarrow>
          if fault then rf_return t (Threw AllocationFailure) s
          else rf_goto t (RPush_load (rf_brk s))
                 (s\<lparr>rf_heap := (rf_heap s)
                       (rf_brk s \<mapsto> \<lparr>rf_data = Some v, internal_count = 0,
                                    rf_next = \<lparr>external_count = 0, ptr = None\<rparr>\<rparr>),
                    rf_brk := Suc (rf_brk s)\<rparr>)
      | RPush_load n \<Rightarrow>
          (case rf_heap s n of
             None \<Rightarrow> rf_goto t RUB s
           | Some nd \<Rightarrow>
               rf_goto t (RPush_cas n) (s\<lparr>rf_heap := (rf_heap s)(n \<mapsto> nd\<lparr>rf_next := rf_head s\<rparr>)\<rparr>))
      | RPush_cas n \<Rightarrow>
          (case rf_heap s n of
             None \<Rightarrow> rf_goto t RUB s
           | Some nd \<Rightarrow>
               if rf_head s = rf_next nd \<and> \<not> fault
               then rf_return t Pushed (s\<lparr>rf_head := \<lparr>external_count = 1, ptr = Some n\<rparr>\<rparr>)
               else rf_goto t (RPush_cas n) (s\<lparr>rf_heap := (rf_heap s)(n \<mapsto> nd\<lparr>rf_next := rf_head s\<rparr>)\<rparr>))
      | RPop_load \<Rightarrow> rf_goto t (Inc_cas (rf_head s)) s
      | Inc_cas old_counter \<Rightarrow>
          if rf_head s = old_counter then
            (case ptr old_counter of
               None \<Rightarrow>
                 rf_return t (Popped None)
                   (s\<lparr>rf_head := old_counter\<lparr>external_count := external_count old_counter + 1\<rparr>\<rparr>)
             | Some p \<Rightarrow>
                 rf_goto t (RPop_next p (old_counter\<lparr>external_count := external_count old_counter + 1\<rparr>))
                   (s\<lparr>rf_head := old_counter\<lparr>external_count := external_count old_counter + 1\<rparr>\<rparr>))
          else rf_goto t (Inc_cas (rf_head s)) s
      | RPop_next p old_head \<Rightarrow>
          (case rf_heap s p of
             None \<Rightarrow> rf_goto t RUB s
           | Some nd \<Rightarrow> rf_goto t (RPop_cas p old_head (rf_next nd)) s)
      | RPop_cas p old_head n \<Rightarrow>
          if rf_head s = old_head then rf_goto t (RPop_swap p old_head) (s\<lparr>rf_head := n\<rparr>)
          else rf_goto t (RPop_dec p (rf_head s)) s
      | RPop_swap p old_head \<Rightarrow>
          (case rf_heap s p of
             None \<Rightarrow> rf_goto t RUB s
           | Some nd \<Rightarrow>
               rf_goto t (RPop_fetch_add p old_head (rf_data nd))
                 (s\<lparr>rf_heap := (rf_heap s)(p \<mapsto> nd\<lparr>rf_data := None\<rparr>)\<rparr>))
      | RPop_fetch_add p old_head res \<Rightarrow>
          (case rf_heap s p of
             None \<Rightarrow> rf_goto t RUB s
           | Some nd \<Rightarrow>
               (let count_increase = external_count old_head - 2 in
                if internal_count nd = - count_increase
                then rf_goto t (RPop_delete p res)
                       (s\<lparr>rf_heap := (rf_heap s)(p \<mapsto> nd\<lparr>internal_count := internal_count nd + count_increase\<rparr>)\<rparr>)
                else rf_return t (Popped res)
                       (s\<lparr>rf_heap := (rf_heap s)(p \<mapsto> nd\<lparr>internal_count := internal_count nd + count_increase\<rparr>)\<rparr>)))
      | RPop_delete p res \<Rightarrow>
          (case rf_heap s p of
             None \<Rightarrow> rf_goto t RUB s
           | Some nd \<Rightarrow> rf_return t (Popped res) (s\<lparr>rf_heap := (rf_heap s)(p := None)\<rparr>))
      | RPop_dec p old_head \<Rightarrow>
          (case rf_heap s p of
             None \<Rightarrow> rf_goto t RUB s
           | Some nd \<Rightarrow>
               rf_goto t (if internal_count nd = 1 then RPop_dec_load p old_head else Inc_cas old_head)
                 (s\<lparr>rf_heap := (rf_heap s)(p \<mapsto> nd\<lparr>internal_count := internal_count nd + (- 1)\<rparr>)\<rparr>))
      | RPop_dec_load p old_head \<Rightarrow>
          (case rf_heap s p of
             None \<Rightarrow> rf_goto t RUB s
           | Some nd \<Rightarrow> rf_goto t (RPop_dec_delete p old_head) s)
      | RPop_dec_delete p old_head \<Rightarrow>
          (case rf_heap s p of
             None \<Rightarrow> rf_goto t RUB s
           | Some nd \<Rightarrow> rf_goto t (Inc_cas old_head) (s\<lparr>rf_heap := (rf_heap s)(p := None)\<rparr>))
      | RUB \<Rightarrow> s)"

primrec rf_exec :: "event list \<Rightarrow> 'a rfs \<Rightarrow> 'a rfs" where
  "rf_exec [] s = s"
| "rf_exec (e # es) s = rf_exec es (rf_step e s)"

text \<open>
  An empty reference-counted stack: a head with a null \<open>ptr\<close> and the given
  \<open>external_count\<close>, no node allocated.
\<close>

definition rf_init :: "cint \<Rightarrow> (tid \<Rightarrow> 'a call list) \<Rightarrow> 'a rfs" where
  "rf_init c calls =
     \<lparr>rf_head = \<lparr>external_count = c, ptr = None\<rparr>, rf_heap = Map.empty, rf_brk = 0,
      rf_threads = (\<lambda>t. \<lparr>rf_pc = RIdle, rf_todo = calls t, rf_results = []\<rparr>)\<rparr>"

subsection \<open>Hazard slots: who holds one, and what it announces\<close>

text \<open>
  \<open>holds_slot s t\<close>: the \<open>hp_owner\<close> of thread \<open>t\<close> is constructed and points to a slot of the
  table whose \<open>id\<close> is \<open>t\<close>. \<open>hazard_slot_holds s t q\<close>: moreover that slot's \<open>pointer\<close> is \<open>q\<close>.
\<close>

definition holds_slot :: "'a hzs \<Rightarrow> tid \<Rightarrow> bool" where
  "holds_slot s t =
     (case hazard (hz_threads s t) of
        None \<Rightarrow> False
      | Some i \<Rightarrow> i < max_hazard_pointers \<and> owner_id (hazard_pointers s i) = Some t)"

definition hazard_slot_holds :: "'a hzs \<Rightarrow> tid \<Rightarrow> addr option \<Rightarrow> bool" where
  "hazard_slot_holds s t q =
     (case hazard (hz_threads s t) of
        None \<Rightarrow> False
      | Some i \<Rightarrow>
          i < max_hazard_pointers \<and> owner_id (hazard_pointers s i) = Some t \<and>
          pointer (hazard_pointers s i) = q)"

text \<open>
  The test the specification asks for before a node is freed, in its words: a full scan of
  all hazard slots finds one that references node \<open>p\<close>. It is here to be compared with
  \<open>outstanding_hazard_pointers_for\<close>, which the source calls at that place.
\<close>

definition scan_finds :: "'a hzs \<Rightarrow> addr \<Rightarrow> bool" where
  "scan_finds s p = list_ex (\<lambda>i. pointer (hazard_pointers s i) = Some p) [0..<max_hazard_pointers]"

text \<open>
  The program counters at which the thread is in \<open>pop\<close> past line 269, in the destructor, or
  about to store through the reference that \<open>get_hazard_pointer_for_current_thread\<close>
  returned; and what the thread has stored in its slot at the program counters between the
  store of line 277 and the compare-exchange of line 282.
\<close>

fun in_pop :: "'a caller \<Rightarrow> bool" where
  "in_pop (In_pop res) = True"
| "in_pop Direct = False"

fun needs_slot :: "'a hz_pc \<Rightarrow> bool" where
  "needs_slot HIdle = False"
| "needs_slot (Hp_scan i) = False"
| "needs_slot (Client_scan i p) = False"
| "needs_slot HUB = False"
| "needs_slot (Reclaim_new p c) = in_pop c"
| "needs_slot (Add_load e c k) = in_pop c"
| "needs_slot (Add_cas e c k) = in_pop c"
| "needs_slot (Scan_exchange c) = in_pop c"
| "needs_slot (Scan_entry e c) = in_pop c"
| "needs_slot (Scan_delete e n c) = in_pop c"
| "needs_slot _ = True"

fun publishes :: "'a hz_pc \<Rightarrow> addr option option" where
  "publishes (HPop_reload temp) = Some temp"
| "publishes (HPop_next p) = Some (Some p)"
| "publishes (HPop_cas p n) = Some (Some p)"
| "publishes _ = None"

text \<open>
  The invariant of the registry: a thread that is past the acquisition has a slot, the slot
  a thread has is in the table and carries the thread's identity, and it holds what the
  thread last stored there.
\<close>

definition slot_ok :: "'a hzs \<Rightarrow> tid \<Rightarrow> bool" where
  "slot_ok s t =
     (case hazard (hz_threads s t) of
        None \<Rightarrow> \<not> needs_slot (hz_pc (hz_threads s t))
      | Some i \<Rightarrow>
          i < max_hazard_pointers \<and> owner_id (hazard_pointers s i) = Some t \<and>
          (case publishes (hz_pc (hz_threads s t)) of
             None \<Rightarrow> True
           | Some q \<Rightarrow> pointer (hazard_pointers s i) = q))"

definition hz_inv :: "'a hzs \<Rightarrow> bool" where
  "hz_inv s = (\<forall>t. slot_ok s t)"

subsection \<open>Schedules of a thread that runs alone\<close>

text \<open>
  The events of one whole \<open>push\<close> by thread \<open>t\<close> with no step of another thread in between:
  the entry, \<open>new\<close>, the load of the head, \<open>k\<close> spurious failures of
  \<open>compare_exchange_weak\<close>, and the compare-exchange that succeeds. The same list serves
  \<open>lock_free_stack\<close> and \<open>lock_free_stack_rf\<close>.
\<close>

definition push_events :: "tid \<Rightarrow> nat \<Rightarrow> event list" where
  "push_events t k = [(t, False), (t, False), (t, False)] @ replicate k (t, True) @ [(t, False)]"

text \<open>
  One whole \<open>pop\<close> of \<open>lock_free_stack\<close> on a stack that is not empty: the entry, the load
  of the head, the read of \<open>old_head->next\<close>, \<open>k\<close> rounds of a spurious failure followed by
  the read of \<open>next\<close> again, the compare-exchange that succeeds and the read of the data.
\<close>

definition pop_events :: "tid \<Rightarrow> nat \<Rightarrow> event list" where
  "pop_events t k =
     [(t, False), (t, False), (t, False)] @ concat (replicate k [(t, True), (t, False)])
       @ [(t, False), (t, False)]"

text \<open>
  One whole \<open>pop\<close> of \<open>lock_free_stack_rf\<close> that frees the node: the entry and the seven
  accesses of lines 356, 332, 367, 366, 370, 372 and 375. Its compare-exchanges are strong.
\<close>

definition rf_pop_events :: "tid \<Rightarrow> event list" where
  "rf_pop_events t = replicate 8 (t, False)"

subsection \<open>Example configurations\<close>

text \<open>Thread 0 is about to push 7 on an empty stack; no other thread has anything to do.\<close>

definition lfs_example :: "nat lfs" where
  "lfs_example = lfs_init (\<lambda>t. if t = 0 then [Push 7] else [])"

definition rf_example :: "nat rfs" where
  "rf_example = rf_init 0 (\<lambda>t. if t = 0 then [Push 7] else [])"

text \<open>
  Thread 0 pushes 7 and pops; thread 1 pops. In \<open>race_events\<close> thread 0 finishes its push
  and takes its pop up to the compare-exchange of line 366, then thread 1 takes its pop up
  to the same point: both have claimed the head, and thread 1, the later one, holds the
  head value that is current.
\<close>

definition rf_race :: "nat rfs" where
  "rf_race = rf_init 0 (\<lambda>t. if t = 0 then [Push 7, Pop] else if t = 1 then [Pop] else [])"

definition race_events :: "event list" where
  "race_events = replicate 8 (0, False) @ replicate 4 (1, False)"

text \<open>Thread 0 pushes 1, 2, 3 and pops three times.\<close>

definition lfs_lifo_example :: "nat lfs" where
  "lfs_lifo_example = lfs_init (\<lambda>t. if t = 0 then [Push 1, Push 2, Push 3, Pop, Pop, Pop] else [])"

definition rf_lifo_example :: "nat rfs" where
  "rf_lifo_example = rf_init 0 (\<lambda>t. if t = 0 then [Push 1, Push 2, Push 3, Pop, Pop, Pop] else [])"

text \<open>Thread 0 pops three times from an empty stack.\<close>

definition lfs_empty_example :: "nat lfs" where
  "lfs_empty_example = lfs_init (\<lambda>t. if t = 0 then [Pop, Pop, Pop] else [])"

definition rf_empty_example :: "nat rfs" where
  "rf_empty_example = rf_init 0 (\<lambda>t. if t = 0 then [Pop, Pop, Pop] else [])"

text \<open>A stack with the one node 0, holding 7; threads 0 and 1 each pop once.\<close>

definition hz_race :: "nat hzs" where
  "hz_race = hz_init (Some 0) [0 \<mapsto> \<lparr>data = Some 7, nxt = None\<rparr>] 1
     (\<lambda>t. if t = 0 \<or> t = 1 then [HPop] else [])"

text \<open>
  A program that uses the registry for an object of its own. The stack is as its
  construction leaves it: empty. The program has allocated one object, at address 0.
  Thread 0 announces it in its hazard slot; thread 1 hands it to \<open>reclaim_later\<close> and then
  calls \<open>delete_nodes_with_no_hazards\<close>. In \<open>announce_events\<close> thread 0 makes its call: the
  entry, the compare-exchange that acquires slot 0, and the store. In \<open>retire_events\<close>
  thread 1 makes its first call: the entry, \<open>new data_to_reclaim\<close>, and the two accesses of
  \<open>add_to_reclaim_list\<close>. In \<open>scan_events\<close> thread 1 takes its second call up to line 243:
  the entry, the exchange of line 237, and the read of the entry.
\<close>

definition hz_registry_example :: "nat hzs" where
  "hz_registry_example = hz_init None [0 \<mapsto> \<lparr>data = Some 7, nxt = None\<rparr>] 1
     (\<lambda>t. if t = 0 then [Store_hazard (Some 0)]
          else if t = 1 then [Reclaim_later (Some 0), Delete_nodes_with_no_hazards] else [])"

definition announce_events :: "event list" where
  "announce_events = replicate 3 (0, False)"

definition retire_events :: "event list" where
  "retire_events = replicate 4 (1, False)"

definition scan_events :: "event list" where
  "scan_events = replicate 3 (1, False)"

text \<open>
  An empty stack and a full table: slot \<open>i\<close> belongs to thread \<open>i + 1\<close>, for every \<open>i\<close> below
  \<open>max_hazard_pointers\<close>; thread 0, which has no slot, is about to pop.
\<close>

definition hz_full_example :: "nat hzs" where
  "hz_full_example =
     \<lparr>hz_head = None, hz_heap = Map.empty, reclaim_heap = Map.empty, hz_brk = 0,
      hazard_pointers = (\<lambda>i. \<lparr>owner_id = Some (Suc i), pointer = None\<rparr>),
      nodes_to_reclaim = None,
      hz_threads = (\<lambda>t. \<lparr>hz_pc = HIdle, hz_todo = (if t = 0 then [HPop] else []), hz_results = [],
         hazard = (if 1 \<le> t \<and> t \<le> max_hazard_pointers then Some (t - 1) else None)\<rparr>)\<rparr>"

text \<open>An empty stack and an empty table; thread 0 is about to pop.\<close>

definition hz_empty_example :: "nat hzs" where
  "hz_empty_example = hz_init None Map.empty 0 (\<lambda>t. if t = 0 then [HPop] else [])"

section \<open>Running a schedule\<close>

lemma lfs_exec_append: "lfs_exec (xs @ ys) s = lfs_exec ys (lfs_exec xs s)"
  by (induction xs arbitrary: s) simp_all

lemma rf_exec_append: "rf_exec (xs @ ys) s = rf_exec ys (rf_exec xs s)"
  by (induction xs arbitrary: s) simp_all

lemma rf_frame: "t' \<noteq> t \<Longrightarrow> rf_threads (rf_step (t', f) s) t = rf_threads s t"
  by (cases "rf_pc (rf_threads s t')")
     (simp_all add: rf_goto_def rf_return_def Let_def split: list.splits call.splits option.splits)

lemma cint_settle: "(a + (e - 2) = 0) = (a = 2 - e)" for a e :: cint
proof -
  have "(a + (e - 2) = 0) = (a = - (e - 2))"
    by (simp only: eq_neg_iff_add_eq_0)
  then show ?thesis by simp
qed

lemmas rf_eval = rf_init_def rf_goto_def rf_return_def numeral_eq_Suc

lemma lfs_push_cas_spurious:
  "pc (threads s t) = Push_cas n \<Longrightarrow> heap s n = Some nd \<Longrightarrow> nxt nd = head s \<Longrightarrow>
   lfs_step (t, True) s = s"
  by (simp add: lfs_goto_def) (intro lfs.equality lfs_thread.equality ext; simp)

lemma lfs_push_cas_spurious_many:
  "pc (threads s t) = Push_cas n \<Longrightarrow> heap s n = Some nd \<Longrightarrow> nxt nd = head s \<Longrightarrow>
   lfs_exec (replicate k (t, True)) s = s"
  by (induction k) (simp_all add: lfs_push_cas_spurious del: lfs_step.simps)

lemma lfs_push_run:
  assumes "pc (threads s t) = Idle" and "todo (threads s t) = Push v # cs"
  shows "lfs_exec (push_events t k) s =
     \<lparr>head = Some (brk s),
       heap = (heap s)(brk s \<mapsto> \<lparr>data = Some v, nxt = head s\<rparr>),
       brk = Suc (brk s),
       threads = (threads s)(t := \<lparr>pc = Idle, todo = cs, results = results (threads s t) @ [Pushed]\<rparr>)\<rparr>"
proof -
  let ?s3 = "lfs_exec [(t, False), (t, False), (t, False)] s"
  have pc3: "pc (threads ?s3 t) = Push_cas (brk s)"
    and heap3: "heap ?s3 (brk s) = Some \<lparr>data = Some v, nxt = head s\<rparr>"
    and head3: "head ?s3 = head s"
    using assms by (simp_all add: lfs_goto_def)
  have "lfs_exec (replicate k (t, True)) ?s3 = ?s3"
    by (rule lfs_push_cas_spurious_many [OF pc3 heap3]) (simp add: head3 del: lfs_exec.simps lfs_step.simps)
  then have "lfs_exec (push_events t k) s = lfs_exec [(t, False)] ?s3"
    by (simp only: push_events_def lfs_exec_append)
  also have "\<dots> = \<lparr>head = Some (brk s),
       heap = (heap s)(brk s \<mapsto> \<lparr>data = Some v, nxt = head s\<rparr>),
       brk = Suc (brk s),
       threads = (threads s)(t := \<lparr>pc = Idle, todo = cs, results = results (threads s t) @ [Pushed]\<rparr>)\<rparr>"
    using assms
    by (simp add: lfs_goto_def lfs_return_def) (intro lfs.equality lfs_thread.equality ext; simp)
  finally show ?thesis .
qed

lemma lfs_pop_cas_spurious:
  "pc (threads s t) = Pop_cas p n \<Longrightarrow> head s = Some p \<Longrightarrow> heap s p = Some nd \<Longrightarrow> nxt nd = n \<Longrightarrow>
   lfs_exec [(t, True), (t, False)] s = s"
  by (simp add: lfs_goto_def) (intro lfs.equality lfs_thread.equality ext; simp)

lemma lfs_pop_cas_spurious_many:
  "pc (threads s t) = Pop_cas p n \<Longrightarrow> head s = Some p \<Longrightarrow> heap s p = Some nd \<Longrightarrow> nxt nd = n \<Longrightarrow>
   lfs_exec (concat (replicate k [(t, True), (t, False)])) s = s"
proof (induction k)
  case 0
  then show ?case by simp
next
  case (Suc k)
  have "lfs_exec (concat (replicate (Suc k) [(t, True), (t, False)])) s
      = lfs_exec (concat (replicate k [(t, True), (t, False)])) (lfs_exec [(t, True), (t, False)] s)"
    by simp
  with Suc show ?case by (simp only: lfs_pop_cas_spurious)
qed

lemma lfs_pop_run:
  assumes "pc (threads s t) = Idle" and "todo (threads s t) = Pop # cs"
    and "head s = Some p" and "heap s p = Some nd"
  shows "lfs_exec (pop_events t k) s =
     \<lparr>head = nxt nd, heap = heap s, brk = brk s,
       threads = (threads s)(t := \<lparr>pc = Idle, todo = cs, results = results (threads s t) @ [Popped (data nd)]\<rparr>)\<rparr>"
proof -
  let ?s3 = "lfs_exec [(t, False), (t, False), (t, False)] s"
  have pc3: "pc (threads ?s3 t) = Pop_cas p (nxt nd)"
    and heap3: "heap ?s3 p = Some nd"
    and head3: "head ?s3 = Some p"
    using assms by (simp_all add: lfs_goto_def)
  have "lfs_exec (concat (replicate k [(t, True), (t, False)])) ?s3 = ?s3"
    by (rule lfs_pop_cas_spurious_many [OF pc3 head3 heap3 refl])
  then have "lfs_exec (pop_events t k) s = lfs_exec [(t, False), (t, False)] ?s3"
    by (simp only: pop_events_def lfs_exec_append)
  also have "\<dots> = \<lparr>head = nxt nd, heap = heap s, brk = brk s,
       threads = (threads s)(t := \<lparr>pc = Idle, todo = cs, results = results (threads s t) @ [Popped (data nd)]\<rparr>)\<rparr>"
    using assms
    by (simp add: lfs_goto_def lfs_return_def) (intro lfs.equality lfs_thread.equality ext; simp)
  finally show ?thesis .
qed


lemma lfs_lifo:
  assumes "pc (threads s t) = Idle"
    and "todo (threads s t) = [Push v1, Push v2, Push v3, Pop, Pop, Pop] @ cs"
    and "head s = None"
  shows "results (threads (lfs_exec (push_events t ka @ push_events t kb @ push_events t kc
            @ pop_events t kd @ pop_events t ke @ pop_events t kf) s) t)
         = results (threads s t) @ [Pushed, Pushed, Pushed, Popped (Some v3), Popped (Some v2), Popped (Some v1)]"
  using assms by (simp add: lfs_exec_append lfs_push_run lfs_pop_run del: lfs_step.simps lfs_exec.simps)

lemma rf_push_cas_spurious:
  "rf_pc (rf_threads s t) = RPush_cas n \<Longrightarrow> rf_heap s n = Some nd \<Longrightarrow> rf_next nd = rf_head s \<Longrightarrow>
   rf_step (t, True) s = s"
  by (simp add: rf_goto_def) (intro rfs.equality rf_thread.equality ext; simp)

lemma rf_push_cas_spurious_many:
  "rf_pc (rf_threads s t) = RPush_cas n \<Longrightarrow> rf_heap s n = Some nd \<Longrightarrow> rf_next nd = rf_head s \<Longrightarrow>
   rf_exec (replicate k (t, True)) s = s"
  by (induction k) (simp_all add: rf_push_cas_spurious del: rf_step.simps)

lemma rf_push_run:
  assumes "rf_pc (rf_threads s t) = RIdle" and "rf_todo (rf_threads s t) = Push v # cs"
  shows "rf_exec (push_events t k) s =
     \<lparr>rf_head = \<lparr>external_count = 1, ptr = Some (rf_brk s)\<rparr>,
       rf_heap = (rf_heap s)(rf_brk s \<mapsto> \<lparr>rf_data = Some v, internal_count = 0, rf_next = rf_head s\<rparr>),
       rf_brk = Suc (rf_brk s),
       rf_threads = (rf_threads s)
         (t := \<lparr>rf_pc = RIdle, rf_todo = cs, rf_results = rf_results (rf_threads s t) @ [Pushed]\<rparr>)\<rparr>"
proof -
  let ?s3 = "rf_exec [(t, False), (t, False), (t, False)] s"
  have pc3: "rf_pc (rf_threads ?s3 t) = RPush_cas (rf_brk s)"
    and heap3: "rf_heap ?s3 (rf_brk s) = Some \<lparr>rf_data = Some v, internal_count = 0, rf_next = rf_head s\<rparr>"
    and head3: "rf_head ?s3 = rf_head s"
    using assms by (simp_all add: rf_goto_def)
  have "rf_exec (replicate k (t, True)) ?s3 = ?s3"
    by (rule rf_push_cas_spurious_many [OF pc3 heap3]) (simp add: head3 del: rf_exec.simps rf_step.simps)
  then have "rf_exec (push_events t k) s = rf_exec [(t, False)] ?s3"
    by (simp only: push_events_def rf_exec_append)
  also have "\<dots> = \<lparr>rf_head = \<lparr>external_count = 1, ptr = Some (rf_brk s)\<rparr>,
       rf_heap = (rf_heap s)(rf_brk s \<mapsto> \<lparr>rf_data = Some v, internal_count = 0, rf_next = rf_head s\<rparr>),
       rf_brk = Suc (rf_brk s),
       rf_threads = (rf_threads s)
         (t := \<lparr>rf_pc = RIdle, rf_todo = cs, rf_results = rf_results (rf_threads s t) @ [Pushed]\<rparr>)\<rparr>"
    using assms
    by (simp add: rf_goto_def rf_return_def) (intro rfs.equality rf_thread.equality ext; simp)
  finally show ?thesis .
qed

lemma rf_pop_run:
  assumes "rf_pc (rf_threads s t) = RIdle" and "rf_todo (rf_threads s t) = Pop # cs"
    and "rf_head s = \<lparr>external_count = 1, ptr = Some p\<rparr>"
    and "rf_heap s p = Some nd" and "internal_count nd = 0"
  shows "rf_exec (rf_pop_events t) s =
     \<lparr>rf_head = rf_next nd, rf_heap = (rf_heap s)(p := None), rf_brk = rf_brk s,
       rf_threads = (rf_threads s)
         (t := \<lparr>rf_pc = RIdle, rf_todo = cs,
                rf_results = rf_results (rf_threads s t) @ [Popped (rf_data nd)]\<rparr>)\<rparr>"
  using assms
  by (simp add: rf_pop_events_def numeral_eq_Suc rf_goto_def rf_return_def)
     (intro rfs.equality rf_thread.equality ext; simp)

lemma rf_lifo:
  assumes "rf_pc (rf_threads s t) = RIdle"
    and "rf_todo (rf_threads s t) = [Push v1, Push v2, Push v3, Pop, Pop, Pop] @ cs"
    and "ptr (rf_head s) = None"
  shows "rf_results (rf_threads (rf_exec (push_events t ka @ push_events t kb @ push_events t kc
            @ rf_pop_events t @ rf_pop_events t @ rf_pop_events t) s) t)
         = rf_results (rf_threads s t) @ [Pushed, Pushed, Pushed, Popped (Some v3), Popped (Some v2), Popped (Some v1)]"
  using assms by (simp add: rf_exec_append rf_push_run rf_pop_run del: rf_step.simps rf_exec.simps)

lemma lfs_pop_empty_many:
  "pc (threads s t) = Idle \<Longrightarrow> todo (threads s t) = replicate n Pop @ cs \<Longrightarrow> head s = None \<Longrightarrow>
   lfs_exec (replicate (2 * n) (t, f)) s =
     \<lparr>head = None, heap = heap s, brk = brk s,
      threads = (threads s)
        (t := \<lparr>pc = Idle, todo = cs, results = results (threads s t) @ replicate n (Popped None)\<rparr>)\<rparr>"
proof (induction n arbitrary: s)
  case 0
  then show ?case by (intro lfs.equality lfs_thread.equality ext; simp)
next
  case (Suc n)
  let ?s2 = "lfs_exec [(t, f), (t, f)] s"
  have s2: "?s2 = \<lparr>head = None, heap = heap s, brk = brk s,
      threads = (threads s)
        (t := \<lparr>pc = Idle, todo = replicate n Pop @ cs, results = results (threads s t) @ [Popped None]\<rparr>)\<rparr>"
    using Suc.prems
    by (simp add: lfs_goto_def lfs_return_def) (intro lfs.equality lfs_thread.equality ext; simp)
  have "replicate (2 * Suc n) (t, f) = [(t, f), (t, f)] @ replicate (2 * n) (t, f)"
    by simp
  then have "lfs_exec (replicate (2 * Suc n) (t, f)) s = lfs_exec (replicate (2 * n) (t, f)) ?s2"
    by (simp only: lfs_exec_append)
  also have "\<dots> = \<lparr>head = None, heap = heap ?s2, brk = brk ?s2,
      threads = (threads ?s2)
        (t := \<lparr>pc = Idle, todo = cs, results = results (threads ?s2 t) @ replicate n (Popped None)\<rparr>)\<rparr>"
    by (rule Suc.IH) (simp_all only: s2 lfs.simps lfs_thread.simps fun_upd_same)
  also have "\<dots> = \<lparr>head = None, heap = heap s, brk = brk s,
      threads = (threads s)
        (t := \<lparr>pc = Idle, todo = cs, results = results (threads s t) @ replicate (Suc n) (Popped None)\<rparr>)\<rparr>"
    by (simp only: s2) (simp add: replicate_app_Cons_same)
  finally show ?case .
qed

lemma rf_pop_empty_many:
  "rf_pc (rf_threads s t) = RIdle \<Longrightarrow> rf_todo (rf_threads s t) = replicate n Pop @ cs \<Longrightarrow>
   ptr (rf_head s) = None \<Longrightarrow>
   rf_exec (replicate (3 * n) (t, f)) s =
     \<lparr>rf_head = \<lparr>external_count = external_count (rf_head s) + of_nat n, ptr = None\<rparr>,
      rf_heap = rf_heap s, rf_brk = rf_brk s,
      rf_threads = (rf_threads s)
        (t := \<lparr>rf_pc = RIdle, rf_todo = cs,
               rf_results = rf_results (rf_threads s t) @ replicate n (Popped None)\<rparr>)\<rparr>"
proof (induction n arbitrary: s)
  case 0
  then show ?case by (intro rfs.equality rf_thread.equality counted_node_ptr.equality ext; simp)
next
  case (Suc n)
  let ?s3 = "rf_exec [(t, f), (t, f), (t, f)] s"
  have s3: "?s3 = \<lparr>rf_head = \<lparr>external_count = external_count (rf_head s) + 1, ptr = None\<rparr>,
      rf_heap = rf_heap s, rf_brk = rf_brk s,
      rf_threads = (rf_threads s)
        (t := \<lparr>rf_pc = RIdle, rf_todo = replicate n Pop @ cs,
               rf_results = rf_results (rf_threads s t) @ [Popped None]\<rparr>)\<rparr>"
    using Suc.prems
    by (simp add: rf_goto_def rf_return_def)
       (intro rfs.equality rf_thread.equality counted_node_ptr.equality ext; simp)
  have "replicate (3 * Suc n) (t, f) = [(t, f), (t, f), (t, f)] @ replicate (3 * n) (t, f)"
    by (simp add: numeral_eq_Suc)
  then have "rf_exec (replicate (3 * Suc n) (t, f)) s = rf_exec (replicate (3 * n) (t, f)) ?s3"
    by (simp only: rf_exec_append)
  also have "\<dots> = \<lparr>rf_head = \<lparr>external_count = external_count (rf_head ?s3) + of_nat n, ptr = None\<rparr>,
      rf_heap = rf_heap ?s3, rf_brk = rf_brk ?s3,
      rf_threads = (rf_threads ?s3)
        (t := \<lparr>rf_pc = RIdle, rf_todo = cs,
               rf_results = rf_results (rf_threads ?s3 t) @ replicate n (Popped None)\<rparr>)\<rparr>"
    by (rule Suc.IH) (simp_all only: s3 rfs.simps rf_thread.simps counted_node_ptr.simps fun_upd_same)
  also have "\<dots> = \<lparr>rf_head = \<lparr>external_count = external_count (rf_head s) + of_nat (Suc n), ptr = None\<rparr>,
      rf_heap = rf_heap s, rf_brk = rf_brk s,
      rf_threads = (rf_threads s)
        (t := \<lparr>rf_pc = RIdle, rf_todo = cs,
               rf_results = rf_results (rf_threads s t) @ replicate (Suc n) (Popped None)\<rparr>)\<rparr>"
    by (simp only: s3) (simp add: replicate_app_Cons_same algebra_simps)
  finally show ?case .
qed

section \<open>The push protocol\<close>

text \<open>
  Claim C5. For every value \<open>v\<close>, \<open>push(v)\<close> allocates a new node holding \<open>v\<close>, sets that
  node's successor to a just-read snapshot of the head, and installs it as the new head by
  compare-and-swap, retrying with a fresh head snapshot on failure; after a successful push
  the head is the new node and the new node's successor is the head value that the winning
  compare-and-swap observed. Stated for \<open>lock_free_stack\<close> (state \<open>s\<close>) and for
  \<open>lock_free_stack_rf\<close> (state \<open>r\<close>), once for a whole push that no other thread
  interrupts, with any number \<open>k\<close> of spurious failures, and once access by access, in any
  state the other threads may have left: the allocation, the snapshot, and the
  compare-exchange, which either succeeds (the head becomes the new node, whose successor
  is the head it replaced) or stores the current head as the new snapshot and stays at the
  compare-exchange.
\<close>

theorem push_installs_node:
  fixes s :: "'a lfs" and r :: "'a rfs"
  shows
    "(pc (threads s t) = Idle \<and> todo (threads s t) = Push v # cs \<longrightarrow>
        lfs_exec (push_events t k) s =
          \<lparr>head = Some (brk s),
           heap = (heap s)(brk s \<mapsto> \<lparr>data = Some v, nxt = head s\<rparr>),
           brk = Suc (brk s),
           threads = (threads s)
             (t := \<lparr>pc = Idle, todo = cs, results = results (threads s t) @ [Pushed]\<rparr>)\<rparr>) \<and>
     (pc (threads s t) = Push_new v \<longrightarrow>
        heap (lfs_step (t, False) s) (brk s) = Some \<lparr>data = Some v, nxt = None\<rparr> \<and>
        head (lfs_step (t, False) s) = head s \<and>
        pc (threads (lfs_step (t, False) s) t) = Push_load (brk s)) \<and>
     (pc (threads s t) = Push_load n \<and> heap s n = Some nd \<longrightarrow>
        heap (lfs_step (t, fault) s) n = Some (nd\<lparr>nxt := head s\<rparr>) \<and>
        head (lfs_step (t, fault) s) = head s \<and>
        pc (threads (lfs_step (t, fault) s) t) = Push_cas n) \<and>
     (pc (threads s t) = Push_cas n \<and> heap s n = Some nd \<longrightarrow>
        (if head s = nxt nd \<and> \<not> fault
         then head (lfs_step (t, fault) s) = Some n \<and>
              heap (lfs_step (t, fault) s) n = Some nd \<and>
              pc (threads (lfs_step (t, fault) s) t) = Idle \<and>
              results (threads (lfs_step (t, fault) s) t) = results (threads s t) @ [Pushed]
         else head (lfs_step (t, fault) s) = head s \<and>
              heap (lfs_step (t, fault) s) n = Some (nd\<lparr>nxt := head s\<rparr>) \<and>
              pc (threads (lfs_step (t, fault) s) t) = Push_cas n)) \<and>
     (rf_pc (rf_threads r t) = RIdle \<and> rf_todo (rf_threads r t) = Push v # cs \<longrightarrow>
        rf_exec (push_events t k) r =
          \<lparr>rf_head = \<lparr>external_count = 1, ptr = Some (rf_brk r)\<rparr>,
           rf_heap = (rf_heap r)
             (rf_brk r \<mapsto> \<lparr>rf_data = Some v, internal_count = 0, rf_next = rf_head r\<rparr>),
           rf_brk = Suc (rf_brk r),
           rf_threads = (rf_threads r)
             (t := \<lparr>rf_pc = RIdle, rf_todo = cs,
                    rf_results = rf_results (rf_threads r t) @ [Pushed]\<rparr>)\<rparr>) \<and>
     (rf_pc (rf_threads r t) = RPush_new v \<longrightarrow>
        rf_heap (rf_step (t, False) r) (rf_brk r) =
          Some \<lparr>rf_data = Some v, internal_count = 0, rf_next = \<lparr>external_count = 0, ptr = None\<rparr>\<rparr> \<and>
        rf_head (rf_step (t, False) r) = rf_head r \<and>
        rf_pc (rf_threads (rf_step (t, False) r) t) = RPush_load (rf_brk r)) \<and>
     (rf_pc (rf_threads r t) = RPush_load n \<and> rf_heap r n = Some rd \<longrightarrow>
        rf_heap (rf_step (t, fault) r) n = Some (rd\<lparr>rf_next := rf_head r\<rparr>) \<and>
        rf_head (rf_step (t, fault) r) = rf_head r \<and>
        rf_pc (rf_threads (rf_step (t, fault) r) t) = RPush_cas n) \<and>
     (rf_pc (rf_threads r t) = RPush_cas n \<and> rf_heap r n = Some rd \<longrightarrow>
        (if rf_head r = rf_next rd \<and> \<not> fault
         then rf_head (rf_step (t, fault) r) = \<lparr>external_count = 1, ptr = Some n\<rparr> \<and>
              rf_heap (rf_step (t, fault) r) n = Some rd \<and>
              rf_pc (rf_threads (rf_step (t, fault) r) t) = RIdle \<and>
              rf_results (rf_threads (rf_step (t, fault) r) t) = rf_results (rf_threads r t) @ [Pushed]
         else rf_head (rf_step (t, fault) r) = rf_head r \<and>
              rf_heap (rf_step (t, fault) r) n = Some (rd\<lparr>rf_next := rf_head r\<rparr>) \<and>
              rf_pc (rf_threads (rf_step (t, fault) r) t) = RPush_cas n))"
  by (intro conjI impI)
     (simp_all add: lfs_push_run rf_push_run lfs_goto_def lfs_return_def rf_goto_def rf_return_def)

theorem push_installs_node_witness:
  "head (lfs_exec (push_events 0 2) lfs_example) = Some 0 \<and>
   heap (lfs_exec (push_events 0 2) lfs_example) 0 = Some \<lparr>data = Some 7, nxt = None\<rparr> \<and>
   heap (lfs_exec [(0, False), (0, False)] lfs_example) 0 = Some \<lparr>data = Some 7, nxt = None\<rparr> \<and>
   pc (threads (lfs_exec [(0, False), (0, False), (0, False)] lfs_example) 0) = Push_cas 0 \<and>
   head (lfs_exec [(0, False), (0, False), (0, False), (0, False)] lfs_example) = Some 0 \<and>
   pc (threads (lfs_exec [(0, False), (0, False), (0, False), (0, True)] lfs_example) 0) = Push_cas 0 \<and>
   rf_head (rf_exec (push_events 0 2) rf_example) = \<lparr>external_count = 1, ptr = Some 0\<rparr> \<and>
   rf_heap (rf_exec (push_events 0 2) rf_example) 0 =
     Some \<lparr>rf_data = Some 7, internal_count = 0, rf_next = \<lparr>external_count = 0, ptr = None\<rparr>\<rparr> \<and>
   rf_pc (rf_threads (rf_exec [(0, False), (0, False)] rf_example) 0) = RPush_load 0 \<and>
   rf_pc (rf_threads (rf_exec [(0, False), (0, False), (0, False)] rf_example) 0) = RPush_cas 0 \<and>
   rf_head (rf_exec [(0, False), (0, False), (0, False), (0, False)] rf_example) =
     \<lparr>external_count = 1, ptr = Some 0\<rparr> \<and>
   rf_pc (rf_threads (rf_exec [(0, False), (0, False), (0, False), (0, True)] rf_example) 0) = RPush_cas 0"
proof -
  let ?s1 = "lfs_exec [(0, False)] lfs_example"
  let ?s2 = "lfs_exec [(0, False), (0, False)] lfs_example"
  let ?s3 = "lfs_exec [(0, False), (0, False), (0, False)] lfs_example"
  let ?r1 = "rf_exec [(0, False)] rf_example"
  let ?r2 = "rf_exec [(0, False), (0, False)] rf_example"
  let ?r3 = "rf_exec [(0, False), (0, False), (0, False)] rf_example"
  have h0: "pc (threads lfs_example 0) = Idle \<and> todo (threads lfs_example 0) = Push 7 # []"
    "rf_pc (rf_threads rf_example 0) = RIdle \<and> rf_todo (rf_threads rf_example 0) = Push 7 # []"
    by (simp_all add: lfs_example_def lfs_init_def rf_example_def rf_init_def)
  have h1: "pc (threads ?s1 0) = Push_new 7" "rf_pc (rf_threads ?r1 0) = RPush_new 7"
    by (simp_all add: lfs_example_def lfs_init_def rf_example_def rf_init_def)
  have h2: "pc (threads ?s2 0) = Push_load 0 \<and> heap ?s2 0 = Some \<lparr>data = Some 7, nxt = None\<rparr>"
    "rf_pc (rf_threads ?r2 0) = RPush_load 0 \<and>
     rf_heap ?r2 0 = Some \<lparr>rf_data = Some 7, internal_count = 0, rf_next = \<lparr>external_count = 0, ptr = None\<rparr>\<rparr>"
    by (simp_all add: lfs_example_def lfs_init_def rf_example_def rf_init_def lfs_goto_def rf_goto_def)
  have h3: "pc (threads ?s3 0) = Push_cas 0 \<and> heap ?s3 0 = Some \<lparr>data = Some 7, nxt = None\<rparr>"
    "rf_pc (rf_threads ?r3 0) = RPush_cas 0 \<and>
     rf_heap ?r3 0 = Some \<lparr>rf_data = Some 7, internal_count = 0, rf_next = \<lparr>external_count = 0, ptr = None\<rparr>\<rparr>"
    by (simp_all add: lfs_example_def lfs_init_def rf_example_def rf_init_def lfs_goto_def rf_goto_def)
  note a = push_installs_node [where s = lfs_example and r = rf_example and t = 0 and v = 7
      and cs = "[]" and k = 2]
  note b = push_installs_node [where s = ?s1 and r = ?r1 and t = 0 and v = 7]
  note c = push_installs_node [where s = ?s2 and r = ?r2 and t = 0 and n = 0
      and nd = "\<lparr>data = Some 7, nxt = None\<rparr>"
      and rd = "\<lparr>rf_data = Some 7, internal_count = 0, rf_next = \<lparr>external_count = 0, ptr = None\<rparr>\<rparr>"
      and fault = False]
  note d = push_installs_node [where s = ?s3 and r = ?r3 and t = 0 and n = 0
      and nd = "\<lparr>data = Some 7, nxt = None\<rparr>"
      and rd = "\<lparr>rf_data = Some 7, internal_count = 0, rf_next = \<lparr>external_count = 0, ptr = None\<rparr>\<rparr>"
      and fault = False]
  note e = push_installs_node [where s = ?s3 and r = ?r3 and t = 0 and n = 0
      and nd = "\<lparr>data = Some 7, nxt = None\<rparr>"
      and rd = "\<lparr>rf_data = Some 7, internal_count = 0, rf_next = \<lparr>external_count = 0, ptr = None\<rparr>\<rparr>"
      and fault = True]
  show ?thesis
    using a b c d e h0 h1 h2 h3
    by (simp add: lfs_example_def lfs_init_def rf_example_def rf_init_def lfs_goto_def rf_goto_def
        lfs_return_def rf_return_def)
qed

text \<open>
  Claim C9. If node allocation fails during push, the stack is not corrupted: a failed push
  leaves the head exactly as it was before the call, in both variants, because the
  allocation happens before any write to the head. For each variant: a push that runs from
  its entry to the failing \<open>new\<close> changes nothing but the thread's own record, where the
  call ends with \<open>AllocationFailure\<close>; the failing \<open>new\<close> alone, in whatever state the
  other threads have left, changes neither head nor heap; and neither does entering the
  call.
\<close>

theorem push_allocation_failure_keeps_head:
  fixes s :: "'a lfs" and r :: "'a rfs"
  shows
    "(pc (threads s t) = Idle \<and> todo (threads s t) = Push v # cs \<longrightarrow>
        lfs_exec [(t, f), (t, True)] s =
          \<lparr>head = head s, heap = heap s, brk = brk s,
           threads = (threads s)
             (t := \<lparr>pc = Idle, todo = cs,
                    results = results (threads s t) @ [Threw AllocationFailure]\<rparr>)\<rparr>) \<and>
     (pc (threads s t) = Push_new v \<longrightarrow>
        head (lfs_step (t, True) s) = head s \<and>
        heap (lfs_step (t, True) s) = heap s \<and>
        brk (lfs_step (t, True) s) = brk s \<and>
        pc (threads (lfs_step (t, True) s) t) = Idle \<and>
        results (threads (lfs_step (t, True) s) t) = results (threads s t) @ [Threw AllocationFailure]) \<and>
     (pc (threads s t) = Idle \<longrightarrow>
        head (lfs_step (t, f) s) = head s \<and> heap (lfs_step (t, f) s) = heap s) \<and>
     (rf_pc (rf_threads r t) = RIdle \<and> rf_todo (rf_threads r t) = Push v # cs \<longrightarrow>
        rf_exec [(t, f), (t, True)] r =
          \<lparr>rf_head = rf_head r, rf_heap = rf_heap r, rf_brk = rf_brk r,
           rf_threads = (rf_threads r)
             (t := \<lparr>rf_pc = RIdle, rf_todo = cs,
                    rf_results = rf_results (rf_threads r t) @ [Threw AllocationFailure]\<rparr>)\<rparr>) \<and>
     (rf_pc (rf_threads r t) = RPush_new v \<longrightarrow>
        rf_head (rf_step (t, True) r) = rf_head r \<and>
        rf_heap (rf_step (t, True) r) = rf_heap r \<and>
        rf_brk (rf_step (t, True) r) = rf_brk r \<and>
        rf_pc (rf_threads (rf_step (t, True) r) t) = RIdle \<and>
        rf_results (rf_threads (rf_step (t, True) r) t)
          = rf_results (rf_threads r t) @ [Threw AllocationFailure]) \<and>
     (rf_pc (rf_threads r t) = RIdle \<longrightarrow>
        rf_head (rf_step (t, f) r) = rf_head r \<and> rf_heap (rf_step (t, f) r) = rf_heap r)"
proof (intro conjI impI; (elim conjE)?)
  show "lfs_exec [(t, f), (t, True)] s =
          \<lparr>head = head s, heap = heap s, brk = brk s,
           threads = (threads s)
             (t := \<lparr>pc = Idle, todo = cs,
                    results = results (threads s t) @ [Threw AllocationFailure]\<rparr>)\<rparr>"
    if "pc (threads s t) = Idle" and "todo (threads s t) = Push v # cs"
    using that
    by (simp add: lfs_return_def) (intro lfs.equality lfs_thread.equality ext; simp)
  show "rf_exec [(t, f), (t, True)] r =
          \<lparr>rf_head = rf_head r, rf_heap = rf_heap r, rf_brk = rf_brk r,
           rf_threads = (rf_threads r)
             (t := \<lparr>rf_pc = RIdle, rf_todo = cs,
                    rf_results = rf_results (rf_threads r t) @ [Threw AllocationFailure]\<rparr>)\<rparr>"
    if "rf_pc (rf_threads r t) = RIdle" and "rf_todo (rf_threads r t) = Push v # cs"
    using that
    by (simp add: rf_return_def) (intro rfs.equality rf_thread.equality ext; simp)
qed (simp_all add: lfs_return_def rf_return_def split: list.splits call.splits)

theorem push_allocation_failure_keeps_head_witness:
  "head (lfs_exec [(0, False), (0, True)] lfs_example) = None \<and>
   results (threads (lfs_exec [(0, False), (0, True)] lfs_example) 0) = [Threw AllocationFailure] \<and>
   head (lfs_step (0, True) (lfs_step (0, False) lfs_example)) = None \<and>
   head (lfs_step (0, False) lfs_example) = None \<and>
   rf_head (rf_exec [(0, False), (0, True)] rf_example) = \<lparr>external_count = 0, ptr = None\<rparr> \<and>
   rf_results (rf_threads (rf_exec [(0, False), (0, True)] rf_example) 0) = [Threw AllocationFailure] \<and>
   rf_head (rf_step (0, True) (rf_step (0, False) rf_example)) = \<lparr>external_count = 0, ptr = None\<rparr> \<and>
   rf_head (rf_step (0, False) rf_example) = \<lparr>external_count = 0, ptr = None\<rparr>"
proof -
  let ?s1 = "lfs_step (0, False) lfs_example"
  let ?r1 = "rf_step (0, False) rf_example"
  have h0: "pc (threads lfs_example 0) = Idle \<and> todo (threads lfs_example 0) = Push 7 # []"
    and i0: "pc (threads lfs_example 0) = Idle"
    and h1: "pc (threads ?s1 0) = Push_new 7"
    and g0: "rf_pc (rf_threads rf_example 0) = RIdle \<and> rf_todo (rf_threads rf_example 0) = Push 7 # []"
    and j0: "rf_pc (rf_threads rf_example 0) = RIdle"
    and g1: "rf_pc (rf_threads ?r1 0) = RPush_new 7"
    by (simp_all add: lfs_example_def lfs_init_def rf_example_def rf_init_def)
  have v: "head lfs_example = None" "results (threads lfs_example 0) = []"
    "rf_head rf_example = \<lparr>external_count = 0, ptr = None\<rparr>" "rf_results (rf_threads rf_example 0) = []"
    by (simp_all add: lfs_example_def lfs_init_def rf_example_def rf_init_def)
  note a = push_allocation_failure_keeps_head [where s = lfs_example and r = rf_example and t = 0
      and v = 7 and cs = "[]" and f = False]
  note b = push_allocation_failure_keeps_head [where s = ?s1 and r = ?r1 and t = 0 and v = 7]
  note a1 = a [THEN conjunct1, THEN mp, OF h0]
  note a3 = a [THEN conjunct2, THEN conjunct2, THEN conjunct1, THEN mp, OF i0]
  note a4 = a [THEN conjunct2, THEN conjunct2, THEN conjunct2, THEN conjunct1, THEN mp, OF g0]
  note a6 = a [THEN conjunct2, THEN conjunct2, THEN conjunct2, THEN conjunct2, THEN conjunct2, THEN mp, OF j0]
  note b2 = b [THEN conjunct2, THEN conjunct1, THEN mp, OF h1]
  note b5 = b [THEN conjunct2, THEN conjunct2, THEN conjunct2, THEN conjunct2, THEN conjunct1, THEN mp, OF g1]
  have w1: "head (lfs_exec [(0, False), (0, True)] lfs_example) = None"
    and w2: "results (threads (lfs_exec [(0, False), (0, True)] lfs_example) 0) = [Threw AllocationFailure]"
    by (simp_all only: a1 v lfs.simps lfs_thread.simps fun_upd_same append_Nil)
  have w4: "head ?s1 = None" using a3 by (simp only: v)
  have w3: "head (lfs_step (0, True) ?s1) = None" using b2 by (simp only: w4)
  have w5: "rf_head (rf_exec [(0, False), (0, True)] rf_example) = \<lparr>external_count = 0, ptr = None\<rparr>"
    and w6: "rf_results (rf_threads (rf_exec [(0, False), (0, True)] rf_example) 0) = [Threw AllocationFailure]"
    by (simp_all only: a4 v rfs.simps rf_thread.simps fun_upd_same append_Nil)
  have w8: "rf_head ?r1 = \<lparr>external_count = 0, ptr = None\<rparr>" using a6 by (simp only: v)
  have w7: "rf_head (rf_step (0, True) ?r1) = \<lparr>external_count = 0, ptr = None\<rparr>" using b5 by (simp only: w8)
  show ?thesis
    using w1 w2 w3 w4 w5 w6 w7 w8 by (intro conjI)
qed

section \<open>One thread alone: last in, first out\<close>

text \<open>
  Claim C6. For every three values \<open>v1\<close>, \<open>v2\<close>, \<open>v3\<close>: a single thread that, on an empty
  stack with no concurrent activity, pushes \<open>v1\<close> then \<open>v2\<close> then \<open>v3\<close> and then pops three
  times observes \<open>v3\<close>, \<open>v2\<close>, \<open>v1\<close> in that order, in both stack variants. The schedule
  holds the events of thread \<open>t\<close> only, and allows any number of spurious failures at
  each \<open>compare_exchange_weak\<close>.
\<close>

theorem lifo_single_thread:
  fixes s :: "'a lfs" and r :: "'a rfs"
  shows
    "(pc (threads s t) = Idle \<and>
      todo (threads s t) = [Push v1, Push v2, Push v3, Pop, Pop, Pop] @ cs \<and> head s = None \<longrightarrow>
        results (threads (lfs_exec (push_events t ka @ push_events t kb @ push_events t kc
            @ pop_events t kd @ pop_events t ke @ pop_events t kf) s) t)
         = results (threads s t)
             @ [Pushed, Pushed, Pushed, Popped (Some v3), Popped (Some v2), Popped (Some v1)]) \<and>
     (rf_pc (rf_threads r t) = RIdle \<and>
      rf_todo (rf_threads r t) = [Push v1, Push v2, Push v3, Pop, Pop, Pop] @ cs \<and>
      ptr (rf_head r) = None \<longrightarrow>
        rf_results (rf_threads (rf_exec (push_events t ka @ push_events t kb @ push_events t kc
            @ rf_pop_events t @ rf_pop_events t @ rf_pop_events t) r) t)
         = rf_results (rf_threads r t)
             @ [Pushed, Pushed, Pushed, Popped (Some v3), Popped (Some v2), Popped (Some v1)])"
  by (intro conjI impI; elim conjE) (erule (2) lfs_lifo, erule (2) rf_lifo)

theorem lifo_single_thread_witness:
  "results (threads (lfs_exec (push_events 0 0 @ push_events 0 1 @ push_events 0 2
            @ pop_events 0 0 @ pop_events 0 1 @ pop_events 0 2) lfs_lifo_example) 0)
     = [Pushed, Pushed, Pushed, Popped (Some 3), Popped (Some 2), Popped (Some 1)] \<and>
   rf_results (rf_threads (rf_exec (push_events 0 0 @ push_events 0 1 @ push_events 0 2
            @ rf_pop_events 0 @ rf_pop_events 0 @ rf_pop_events 0) rf_lifo_example) 0)
     = [Pushed, Pushed, Pushed, Popped (Some 3), Popped (Some 2), Popped (Some 1)]"
proof -
  have h: "pc (threads lfs_lifo_example 0) = Idle \<and>
      todo (threads lfs_lifo_example 0) = [Push 1, Push 2, Push 3, Pop, Pop, Pop] @ [] \<and>
      head lfs_lifo_example = None"
    by (simp add: lfs_lifo_example_def lfs_init_def)
  have g: "rf_pc (rf_threads rf_lifo_example 0) = RIdle \<and>
      rf_todo (rf_threads rf_lifo_example 0) = [Push 1, Push 2, Push 3, Pop, Pop, Pop] @ [] \<and>
      ptr (rf_head rf_lifo_example) = None"
    by (simp add: rf_lifo_example_def rf_init_def)
  note a = lifo_single_thread [where s = lfs_lifo_example and r = rf_lifo_example and t = 0
      and cs = "[]" and ka = 0 and kb = 1 and kc = 2 and kd = 0 and ke = 1 and kf = 2]
  have r0: "results (threads lfs_lifo_example 0) = []"
    "rf_results (rf_threads rf_lifo_example 0) = []"
    by (simp_all add: lfs_lifo_example_def lfs_init_def rf_lifo_example_def rf_init_def)
  show ?thesis
    using a [THEN conjunct1, THEN mp, OF h] a [THEN conjunct2, THEN mp, OF g]
    by (simp only: r0 append_Nil) 
qed

section \<open>Popping from an empty stack\<close>

text \<open>
  Claim C7, as the specification states it: a pop on a stack with no elements returns the
  empty result and leaves the stack's state unchanged, the compound head of the split
  reference-count variant included. In \<open>lock_free_stack_rf\<close> it does not: \<open>pop\<close> calls
  \<open>increase_head_count\<close> before it tests \<open>ptr\<close>, so a pop on an empty stack returns the null
  pointer and leaves a head whose \<open>external_count\<close> is one higher.
\<close>

theorem empty_pop_rf_changes_head:
  "ptr (rf_head rf_empty_example) = None \<and>
   rf_results (rf_threads (rf_exec [(0, False), (0, False), (0, False)] rf_empty_example) 0)
     = [Popped None] \<and>
   rf_head (rf_exec [(0, False), (0, False), (0, False)] rf_empty_example) \<noteq> rf_head rf_empty_example"
  by (simp add: rf_empty_example_def rf_init_def rf_goto_def rf_return_def)

text \<open>
  Claim C7, amended. On a stack with no elements, \<open>n\<close> pops in a row by one thread all
  return the empty result and the stack stays empty with its nodes and allocator untouched.
  In \<open>lock_free_stack\<close> nothing of the shared state changes. In \<open>lock_free_stack_rf\<close> the
  head keeps its null \<open>ptr\<close>, and its \<open>external_count\<close> has grown by \<open>n\<close> (in 32-bit
  arithmetic): one for every pop.
\<close>

theorem empty_pop_returns_empty:
  fixes s :: "'a lfs" and r :: "'a rfs"
  shows
    "(pc (threads s t) = Idle \<and> todo (threads s t) = replicate n Pop @ cs \<and> head s = None \<longrightarrow>
        lfs_exec (replicate (2 * n) (t, f)) s =
          \<lparr>head = None, heap = heap s, brk = brk s,
           threads = (threads s)
             (t := \<lparr>pc = Idle, todo = cs,
                    results = results (threads s t) @ replicate n (Popped None)\<rparr>)\<rparr>) \<and>
     (rf_pc (rf_threads r t) = RIdle \<and> rf_todo (rf_threads r t) = replicate n Pop @ cs \<and>
      ptr (rf_head r) = None \<longrightarrow>
        rf_exec (replicate (3 * n) (t, f)) r =
          \<lparr>rf_head = \<lparr>external_count = external_count (rf_head r) + of_nat n, ptr = None\<rparr>,
           rf_heap = rf_heap r, rf_brk = rf_brk r,
           rf_threads = (rf_threads r)
             (t := \<lparr>rf_pc = RIdle, rf_todo = cs,
                    rf_results = rf_results (rf_threads r t) @ replicate n (Popped None)\<rparr>)\<rparr>)"
  by (intro conjI impI; elim conjE) (erule (2) lfs_pop_empty_many, erule (2) rf_pop_empty_many)

theorem empty_pop_returns_empty_witness:
  "lfs_exec (replicate (2 * 3) (0, False)) lfs_empty_example =
     \<lparr>head = None, heap = Map.empty, brk = 0,
      threads = (threads lfs_empty_example)
        (0 := \<lparr>pc = Idle, todo = [], results = [Popped None, Popped None, Popped None]\<rparr>)\<rparr> \<and>
   rf_exec (replicate (3 * 3) (0, False)) rf_empty_example =
     \<lparr>rf_head = \<lparr>external_count = 3, ptr = None\<rparr>, rf_heap = Map.empty, rf_brk = 0,
      rf_threads = (rf_threads rf_empty_example)
        (0 := \<lparr>rf_pc = RIdle, rf_todo = [], rf_results = [Popped None, Popped None, Popped None]\<rparr>)\<rparr>"
proof -
  have h: "pc (threads lfs_empty_example 0) = Idle \<and>
      todo (threads lfs_empty_example 0) = replicate 3 Pop @ [] \<and> head lfs_empty_example = None"
    by (simp add: lfs_empty_example_def lfs_init_def numeral_eq_Suc)
  have g: "rf_pc (rf_threads rf_empty_example 0) = RIdle \<and>
      rf_todo (rf_threads rf_empty_example 0) = replicate 3 Pop @ [] \<and>
      ptr (rf_head rf_empty_example) = None"
    by (simp add: rf_empty_example_def rf_init_def numeral_eq_Suc)
  have v: "heap lfs_empty_example = Map.empty" "brk lfs_empty_example = 0"
    "results (threads lfs_empty_example 0) = []"
    "rf_heap rf_empty_example = Map.empty" "rf_brk rf_empty_example = 0"
    "rf_results (rf_threads rf_empty_example 0) = []"
    "external_count (rf_head rf_empty_example) = 0"
    by (simp_all add: lfs_empty_example_def lfs_init_def rf_empty_example_def rf_init_def)
  have e: "replicate 3 (Popped None :: nat outcome) = [Popped None, Popped None, Popped None]"
    "(0::cint) + of_nat 3 = 3"
    by (simp_all add: numeral_eq_Suc)
  note a = empty_pop_returns_empty [where s = lfs_empty_example and r = rf_empty_example
      and t = 0 and n = 3 and cs = "[]" and f = False]
  show ?thesis
    using a [THEN conjunct1, THEN mp, OF h] a [THEN conjunct2, THEN mp, OF g]
    by (simp only: v e append_Nil)
qed

section \<open>Settling the counts in the split reference-count variant\<close>

text \<open>
  Claim C2. A pop that wins the head compare-and-swap adds \<open>claimed_external_count - 2\<close> to
  the popped node's \<open>internal_count\<close> by an atomic fetch-and-add, and frees the node if and
  only if the value of \<open>internal_count\<close> before the addition equals the negation of that
  increment, that is, the combined count settles to exactly zero. Access by access, for
  thread \<open>t\<close> in any state \<open>s\<close>: the claim (\<open>increase_head_count\<close>) leaves the incremented
  count in \<open>old_head\<close>; the read of \<open>ptr->next\<close> and the winning compare-exchange keep
  \<open>old_head\<close>; so does the swap of the data; the fetch-and-add stores
  \<open>internal_count + (old_head.external_count - 2)\<close> and goes on to \<open>delete\<close> exactly when the
  old \<open>internal_count\<close> is the negated increment, which is exactly when the sum is 0, and
  returns with the node still allocated otherwise; \<open>delete\<close> frees the node. The last
  conjunct: no step of another thread changes what thread \<open>t\<close> holds in its locals.
\<close>

theorem rf_pop_success_settles_count:
  fixes s :: "'a rfs"
  shows
    "(rf_pc (rf_threads s t) = Inc_cas old_counter \<and> rf_head s = old_counter \<and> ptr old_counter = Some p \<longrightarrow>
        rf_head (rf_step (t, f) s) = old_counter\<lparr>external_count := external_count old_counter + 1\<rparr> \<and>
        rf_pc (rf_threads (rf_step (t, f) s) t) =
          RPop_next p (old_counter\<lparr>external_count := external_count old_counter + 1\<rparr>)) \<and>
     (rf_pc (rf_threads s t) = RPop_next p old_head \<and> rf_heap s p = Some nd \<longrightarrow>
        rf_step (t, f) s = rf_goto t (RPop_cas p old_head (rf_next nd)) s) \<and>
     (rf_pc (rf_threads s t) = RPop_cas p old_head n \<and> rf_head s = old_head \<longrightarrow>
        rf_head (rf_step (t, f) s) = n \<and>
        rf_heap (rf_step (t, f) s) = rf_heap s \<and>
        rf_pc (rf_threads (rf_step (t, f) s) t) = RPop_swap p old_head) \<and>
     (rf_pc (rf_threads s t) = RPop_swap p old_head \<and> rf_heap s p = Some nd \<longrightarrow>
        rf_heap (rf_step (t, f) s) p = Some (nd\<lparr>rf_data := None\<rparr>) \<and>
        rf_pc (rf_threads (rf_step (t, f) s) t) = RPop_fetch_add p old_head (rf_data nd)) \<and>
     (rf_pc (rf_threads s t) = RPop_fetch_add p old_head res \<and> rf_heap s p = Some nd \<longrightarrow>
        rf_heap (rf_step (t, f) s) p =
          Some (nd\<lparr>internal_count := internal_count nd + (external_count old_head - 2)\<rparr>) \<and>
        (if internal_count nd = - (external_count old_head - 2)
         then rf_pc (rf_threads (rf_step (t, f) s) t) = RPop_delete p res
         else rf_pc (rf_threads (rf_step (t, f) s) t) = RIdle \<and>
              rf_results (rf_threads (rf_step (t, f) s) t) = rf_results (rf_threads s t) @ [Popped res]) \<and>
        (internal_count nd = - (external_count old_head - 2)) =
          (internal_count nd + (external_count old_head - 2) = 0)) \<and>
     (rf_pc (rf_threads s t) = RPop_delete p res \<and> rf_heap s p = Some nd \<longrightarrow>
        rf_heap (rf_step (t, f) s) p = None \<and>
        rf_pc (rf_threads (rf_step (t, f) s) t) = RIdle \<and>
        rf_results (rf_threads (rf_step (t, f) s) t) = rf_results (rf_threads s t) @ [Popped res]) \<and>
     (t' \<noteq> t \<longrightarrow> rf_threads (rf_step (t', f) s) t = rf_threads s t)"
  by (intro conjI impI; (erule rf_frame)?)
     (simp_all add: rf_goto_def rf_return_def Let_def cint_settle)

theorem rf_pop_success_settles_count_witness:
  "rf_pc (rf_threads (rf_step (0, False) (rf_exec (replicate 6 (0, False)) rf_race)) 0)
     = RPop_next 0 \<lparr>external_count = 2, ptr = Some 0\<rparr> \<and>
   rf_pc (rf_threads (rf_step (0, False) (rf_exec (replicate 7 (0, False)) rf_race)) 0)
     = RPop_cas 0 \<lparr>external_count = 2, ptr = Some 0\<rparr> \<lparr>external_count = 0, ptr = None\<rparr> \<and>
   rf_head (rf_step (1, False) (rf_exec race_events rf_race)) = \<lparr>external_count = 0, ptr = None\<rparr> \<and>
   rf_pc (rf_threads (rf_step (1, False) (rf_exec (race_events @ [(1, False)]) rf_race)) 1)
     = RPop_fetch_add 0 \<lparr>external_count = 3, ptr = Some 0\<rparr> (Some 7) \<and>
   rf_heap (rf_step (1, False) (rf_exec (race_events @ [(1, False), (1, False)]) rf_race)) 0
     = Some \<lparr>rf_data = None, internal_count = 1, rf_next = \<lparr>external_count = 0, ptr = None\<rparr>\<rparr> \<and>
   rf_results (rf_threads (rf_step (1, False) (rf_exec (race_events @ [(1, False), (1, False)]) rf_race)) 1)
     = [Popped (Some 7)] \<and>
   rf_heap (rf_step (0, False) (rf_exec (replicate 11 (0, False)) rf_race)) 0 = None \<and>
   rf_threads (rf_step (1, False) (rf_exec race_events rf_race)) 0
     = rf_threads (rf_exec race_events rf_race) 0"
proof -
  let ?a6 = "rf_exec (replicate 6 (0, False)) rf_race"
  let ?a7 = "rf_exec (replicate 7 (0, False)) rf_race"
  let ?a11 = "rf_exec (replicate 11 (0, False)) rf_race"
  let ?b0 = "rf_exec race_events rf_race"
  let ?b1 = "rf_exec (race_events @ [(1, False)]) rf_race"
  let ?b2 = "rf_exec (race_events @ [(1, False), (1, False)]) rf_race"
  let ?nd = "\<lparr>rf_data = Some (7::nat), internal_count = 0, rf_next = \<lparr>external_count = 0, ptr = None\<rparr>\<rparr>"
  let ?nd' = "\<lparr>rf_data = None :: nat option, internal_count = 0, rf_next = \<lparr>external_count = 0, ptr = None\<rparr>\<rparr>"
  have h6: "rf_pc (rf_threads ?a6 0) = Inc_cas \<lparr>external_count = 1, ptr = Some 0\<rparr> \<and>
      rf_head ?a6 = \<lparr>external_count = 1, ptr = Some 0\<rparr> \<and>
      ptr \<lparr>external_count = 1, ptr = Some 0\<rparr> = Some 0"
    by (simp add: rf_race_def race_events_def rf_eval)
  have h7: "rf_pc (rf_threads ?a7 0) = RPop_next 0 \<lparr>external_count = 2, ptr = Some 0\<rparr> \<and>
      rf_heap ?a7 0 = Some ?nd"
    by (simp add: rf_race_def race_events_def rf_eval)
  have hb0: "rf_pc (rf_threads ?b0 1)
        = RPop_cas 0 \<lparr>external_count = 3, ptr = Some 0\<rparr> \<lparr>external_count = 0, ptr = None\<rparr> \<and>
      rf_head ?b0 = \<lparr>external_count = 3, ptr = Some 0\<rparr>"
    by (simp add: rf_race_def race_events_def rf_eval)
  have hb1: "rf_pc (rf_threads ?b1 1) = RPop_swap 0 \<lparr>external_count = 3, ptr = Some 0\<rparr> \<and>
      rf_heap ?b1 0 = Some ?nd"
    by (simp add: rf_race_def race_events_def rf_eval)
  have hb2: "rf_pc (rf_threads ?b2 1) = RPop_fetch_add 0 \<lparr>external_count = 3, ptr = Some 0\<rparr> (Some 7) \<and>
      rf_heap ?b2 0 = Some ?nd'"
    by (simp add: rf_race_def race_events_def rf_eval)
  have h11: "rf_pc (rf_threads ?a11 0) = RPop_delete 0 (Some 7) \<and> rf_heap ?a11 0 = Some ?nd'"
    by (simp add: rf_race_def race_events_def rf_eval)
  have ne: "(1::nat) \<noteq> 0" by simp
  note a = rf_pop_success_settles_count [where s = ?a6 and t = 0 and f = False and p = 0
      and old_counter = "\<lparr>external_count = 1, ptr = Some 0\<rparr>",
      THEN conjunct1, THEN mp, OF h6]
  note b = rf_pop_success_settles_count [where s = ?a7 and t = 0 and f = False and p = 0
      and old_head = "\<lparr>external_count = 2, ptr = Some 0\<rparr>" and nd = ?nd,
      THEN conjunct2, THEN conjunct1, THEN mp, OF h7]
  note c = rf_pop_success_settles_count [where s = ?b0 and t = 1 and f = False and p = 0
      and old_head = "\<lparr>external_count = 3, ptr = Some 0\<rparr>"
      and n = "\<lparr>external_count = 0, ptr = None\<rparr>",
      THEN conjunct2, THEN conjunct2, THEN conjunct1, THEN mp, OF hb0]
  note d = rf_pop_success_settles_count [where s = ?b1 and t = 1 and f = False and p = 0
      and old_head = "\<lparr>external_count = 3, ptr = Some 0\<rparr>" and nd = ?nd,
      THEN conjunct2, THEN conjunct2, THEN conjunct2, THEN conjunct1, THEN mp, OF hb1]
  note e = rf_pop_success_settles_count [where s = ?b2 and t = 1 and f = False and p = 0
      and old_head = "\<lparr>external_count = 3, ptr = Some 0\<rparr>" and res = "Some 7" and nd = ?nd',
      THEN conjunct2, THEN conjunct2, THEN conjunct2, THEN conjunct2, THEN conjunct1, THEN mp, OF hb2]
  note g = rf_pop_success_settles_count [where s = ?a11 and t = 0 and f = False and p = 0
      and res = "Some 7" and nd = ?nd',
      THEN conjunct2, THEN conjunct2, THEN conjunct2, THEN conjunct2, THEN conjunct2,
      THEN conjunct1, THEN mp, OF h11]
  note h = rf_pop_success_settles_count [where s = ?b0 and t = 0 and t' = 1 and f = False,
      THEN conjunct2, THEN conjunct2, THEN conjunct2, THEN conjunct2, THEN conjunct2,
      THEN conjunct2, THEN mp, OF ne]
  have w1: "rf_pc (rf_threads (rf_step (0, False) ?a6) 0) = RPop_next 0 \<lparr>external_count = 2, ptr = Some 0\<rparr>"
    using a by simp
  have w2: "rf_pc (rf_threads (rf_step (0, False) ?a7) 0)
     = RPop_cas 0 \<lparr>external_count = 2, ptr = Some 0\<rparr> \<lparr>external_count = 0, ptr = None\<rparr>"
    using b by (simp add: rf_goto_def)
  have w3: "rf_head (rf_step (1, False) ?b0) = \<lparr>external_count = 0, ptr = None\<rparr>"
    using c by simp
  have w4: "rf_pc (rf_threads (rf_step (1, False) ?b1) 1)
     = RPop_fetch_add 0 \<lparr>external_count = 3, ptr = Some 0\<rparr> (Some 7)"
    using d by simp
  have w5: "rf_heap (rf_step (1, False) ?b2) 0
     = Some \<lparr>rf_data = None, internal_count = 1, rf_next = \<lparr>external_count = 0, ptr = None\<rparr>\<rparr>"
    and w6: "rf_results (rf_threads (rf_step (1, False) ?b2) 1) = [Popped (Some 7)]"
    using e by (simp_all add: rf_race_def race_events_def rf_eval)
  have w7: "rf_heap (rf_step (0, False) ?a11) 0 = None"
    using g by simp
  show ?thesis
    using w1 w2 w3 w4 w5 w6 w7 h by (intro conjI)
qed

text \<open>
  Claim C3. A pop whose head compare-and-swap fails decrements the claimed node's
  \<open>internal_count\<close> by exactly one, frees the node if and only if that decrement drives the
  count to zero (the value before was one), and then retries the loop from the beginning,
  with the head re-read and claimed again. Access by access: the failed compare-exchange
  leaves the current head in \<open>old_head\<close> and goes to the decrement; the decrement stores
  \<open>internal_count - 1\<close> and goes on to the load and the \<open>delete\<close> exactly when the old value
  is 1, which is exactly when the new one is 0, and straight to \<open>increase_head_count\<close>
  otherwise; after the \<open>delete\<close> the thread is at \<open>increase_head_count\<close> too, with the
  head value that the failed compare-exchange read. That is where the first round of the
  loop starts after the load of line 356, and it claims the head again.
\<close>

theorem rf_pop_failure_releases_claim:
  fixes s :: "'a rfs"
  shows
    "(rf_pc (rf_threads s t) = RPop_cas p old_head n \<and> rf_head s \<noteq> old_head \<longrightarrow>
        rf_step (t, f) s = rf_goto t (RPop_dec p (rf_head s)) s) \<and>
     (rf_pc (rf_threads s t) = RPop_dec p old_head \<and> rf_heap s p = Some nd \<longrightarrow>
        rf_heap (rf_step (t, f) s) p = Some (nd\<lparr>internal_count := internal_count nd - 1\<rparr>) \<and>
        rf_head (rf_step (t, f) s) = rf_head s \<and>
        rf_pc (rf_threads (rf_step (t, f) s) t) =
          (if internal_count nd = 1 then RPop_dec_load p old_head else Inc_cas old_head) \<and>
        (internal_count nd = 1) = (internal_count nd - 1 = 0)) \<and>
     (rf_pc (rf_threads s t) = RPop_dec_load p old_head \<and> rf_heap s p = Some nd \<longrightarrow>
        rf_step (t, f) s = rf_goto t (RPop_dec_delete p old_head) s) \<and>
     (rf_pc (rf_threads s t) = RPop_dec_delete p old_head \<and> rf_heap s p = Some nd \<longrightarrow>
        rf_heap (rf_step (t, f) s) p = None \<and>
        rf_head (rf_step (t, f) s) = rf_head s \<and>
        rf_pc (rf_threads (rf_step (t, f) s) t) = Inc_cas old_head) \<and>
     (rf_pc (rf_threads s t) = Inc_cas old_head \<longrightarrow>
        (if rf_head s = old_head
         then rf_head (rf_step (t, f) s) = old_head\<lparr>external_count := external_count old_head + 1\<rparr>
         else rf_step (t, f) s = rf_goto t (Inc_cas (rf_head s)) s)) \<and>
     (rf_pc (rf_threads s t) = RPop_load \<longrightarrow> rf_step (t, f) s = rf_goto t (Inc_cas (rf_head s)) s) \<and>
     (t' \<noteq> t \<longrightarrow> rf_threads (rf_step (t', f) s) t = rf_threads s t)"
  by (intro conjI impI; (erule rf_frame)?)
     (simp_all add: rf_goto_def rf_return_def split: option.splits)

theorem rf_pop_failure_releases_claim_witness:
  "rf_pc (rf_threads (rf_step (0, False)
       (rf_exec (race_events @ [(1, False), (1, False), (1, False)]) rf_race)) 0)
     = RPop_dec 0 \<lparr>external_count = 0, ptr = None\<rparr> \<and>
   rf_heap (rf_step (0, False)
       (rf_exec (race_events @ [(1, False), (1, False), (1, False), (0, False)]) rf_race)) 0
     = Some \<lparr>rf_data = None, internal_count = 0, rf_next = \<lparr>external_count = 0, ptr = None\<rparr>\<rparr> \<and>
   rf_pc (rf_threads (rf_step (0, False)
       (rf_exec (race_events @ [(1, False), (1, False), (1, False), (0, False)]) rf_race)) 0)
     = RPop_dec_load 0 \<lparr>external_count = 0, ptr = None\<rparr> \<and>
   rf_pc (rf_threads (rf_step (0, False)
       (rf_exec (race_events @ [(1, False), (1, False), (1, False), (0, False), (0, False)]) rf_race)) 0)
     = RPop_dec_delete 0 \<lparr>external_count = 0, ptr = None\<rparr> \<and>
   rf_heap (rf_step (0, False)
       (rf_exec (race_events @ [(1, False), (1, False), (1, False), (0, False), (0, False), (0, False)])
          rf_race)) 0 = None \<and>
   rf_pc (rf_threads (rf_step (0, False)
       (rf_exec (race_events @ [(1, False), (1, False), (1, False), (0, False), (0, False), (0, False)])
          rf_race)) 0) = Inc_cas \<lparr>external_count = 0, ptr = None\<rparr> \<and>
   rf_head (rf_step (0, False)
       (rf_exec (race_events @ [(1, False), (1, False), (1, False), (0, False), (0, False), (0, False),
          (0, False)]) rf_race)) = \<lparr>external_count = 1, ptr = None\<rparr> \<and>
   rf_pc (rf_threads (rf_step (0, False) (rf_exec (replicate 5 (0, False)) rf_race)) 0)
     = Inc_cas \<lparr>external_count = 1, ptr = Some 0\<rparr> \<and>
   rf_threads (rf_step (1, False) (rf_exec race_events rf_race)) 0
     = rf_threads (rf_exec race_events rf_race) 0"
proof -
  let ?c0 = "rf_exec (race_events @ [(1, False), (1, False), (1, False)]) rf_race"
  let ?c1 = "rf_exec (race_events @ [(1, False), (1, False), (1, False), (0, False)]) rf_race"
  let ?c2 = "rf_exec (race_events @ [(1, False), (1, False), (1, False), (0, False), (0, False)]) rf_race"
  let ?c3 = "rf_exec (race_events @ [(1, False), (1, False), (1, False), (0, False), (0, False), (0, False)])
          rf_race"
  let ?c4 = "rf_exec (race_events @ [(1, False), (1, False), (1, False), (0, False), (0, False), (0, False),
          (0, False)]) rf_race"
  let ?a5 = "rf_exec (replicate 5 (0, False)) rf_race"
  let ?b0 = "rf_exec race_events rf_race"
  let ?e = "\<lparr>external_count = 0, ptr = None\<rparr>"
  let ?n1 = "\<lparr>rf_data = None :: nat option, internal_count = 1, rf_next = ?e\<rparr>"
  let ?n0 = "\<lparr>rf_data = None :: nat option, internal_count = 0, rf_next = ?e\<rparr>"
  have h0: "rf_pc (rf_threads ?c0 0) = RPop_cas 0 \<lparr>external_count = 2, ptr = Some 0\<rparr> ?e \<and>
      rf_head ?c0 \<noteq> \<lparr>external_count = 2, ptr = Some 0\<rparr>"
    by (simp add: rf_race_def race_events_def rf_eval)
  have hd0: "rf_head ?c0 = ?e"
    by (simp add: rf_race_def race_events_def rf_eval)
  have h1: "rf_pc (rf_threads ?c1 0) = RPop_dec 0 ?e \<and> rf_heap ?c1 0 = Some ?n1"
    by (simp add: rf_race_def race_events_def rf_eval)
  have h2: "rf_pc (rf_threads ?c2 0) = RPop_dec_load 0 ?e \<and> rf_heap ?c2 0 = Some ?n0"
    by (simp add: rf_race_def race_events_def rf_eval)
  have h3: "rf_pc (rf_threads ?c3 0) = RPop_dec_delete 0 ?e \<and> rf_heap ?c3 0 = Some ?n0"
    by (simp add: rf_race_def race_events_def rf_eval)
  have h4: "rf_pc (rf_threads ?c4 0) = Inc_cas ?e"
    by (simp add: rf_race_def race_events_def rf_eval)
  have hd4: "rf_head ?c4 = ?e"
    by (simp add: rf_race_def race_events_def rf_eval)
  have h5: "rf_pc (rf_threads ?a5 0) = RPop_load"
    by (simp add: rf_race_def race_events_def rf_eval)
  have hd5: "rf_head ?a5 = \<lparr>external_count = 1, ptr = Some 0\<rparr>"
    by (simp add: rf_race_def race_events_def rf_eval)
  have ne: "(1::nat) \<noteq> 0" by simp
  note a = rf_pop_failure_releases_claim [where s = ?c0 and t = 0 and f = False and p = 0
      and old_head = "\<lparr>external_count = 2, ptr = Some 0\<rparr>" and n = ?e,
      THEN conjunct1, THEN mp, OF h0]
  note b = rf_pop_failure_releases_claim [where s = ?c1 and t = 0 and f = False and p = 0
      and old_head = ?e and nd = ?n1,
      THEN conjunct2, THEN conjunct1, THEN mp, OF h1]
  note c = rf_pop_failure_releases_claim [where s = ?c2 and t = 0 and f = False and p = 0
      and old_head = ?e and nd = ?n0,
      THEN conjunct2, THEN conjunct2, THEN conjunct1, THEN mp, OF h2]
  note d = rf_pop_failure_releases_claim [where s = ?c3 and t = 0 and f = False and p = 0
      and old_head = ?e and nd = ?n0,
      THEN conjunct2, THEN conjunct2, THEN conjunct2, THEN conjunct1, THEN mp, OF h3]
  note e = rf_pop_failure_releases_claim [where s = ?c4 and t = 0 and f = False and old_head = ?e,
      THEN conjunct2, THEN conjunct2, THEN conjunct2, THEN conjunct2, THEN conjunct1, THEN mp, OF h4]
  note g = rf_pop_failure_releases_claim [where s = ?a5 and t = 0 and f = False,
      THEN conjunct2, THEN conjunct2, THEN conjunct2, THEN conjunct2, THEN conjunct2,
      THEN conjunct1, THEN mp, OF h5]
  note h = rf_pop_failure_releases_claim [where s = ?b0 and t = 0 and t' = 1 and f = False,
      THEN conjunct2, THEN conjunct2, THEN conjunct2, THEN conjunct2, THEN conjunct2,
      THEN conjunct2, THEN mp, OF ne]
  have w1: "rf_pc (rf_threads (rf_step (0, False) ?c0) 0) = RPop_dec 0 ?e"
    using a by (simp only: hd0) (simp add: rf_goto_def)
  have w2: "rf_heap (rf_step (0, False) ?c1) 0 = Some ?n0"
    and w3: "rf_pc (rf_threads (rf_step (0, False) ?c1) 0) = RPop_dec_load 0 ?e"
    using b by simp_all
  have w4: "rf_pc (rf_threads (rf_step (0, False) ?c2) 0) = RPop_dec_delete 0 ?e"
    using c by (simp add: rf_goto_def)
  have w5: "rf_heap (rf_step (0, False) ?c3) 0 = None"
    and w6: "rf_pc (rf_threads (rf_step (0, False) ?c3) 0) = Inc_cas ?e"
    using d by simp_all
  have w7: "rf_head (rf_step (0, False) ?c4) = \<lparr>external_count = 1, ptr = None\<rparr>"
    using e by (simp only: hd4) simp
  have w8: "rf_pc (rf_threads (rf_step (0, False) ?a5) 0) = Inc_cas \<lparr>external_count = 1, ptr = Some 0\<rparr>"
    using g by (simp only: hd5) (simp add: rf_goto_def)
  show ?thesis
    using w1 w2 w3 w4 w5 w6 w7 w8 h by (intro conjI)
qed

section \<open>The hazard-pointer registry\<close>

lemma hz_inv_init: "hz_inv (hz_init h nodes b calls)"
  by (simp add: hz_inv_def slot_ok_def hz_init_def)

lemma hz_inv_step:
  assumes "hz_inv s"
  shows "hz_inv (hz_step (t, f) s)"
  unfolding hz_inv_def
proof
  fix u
  have T: "slot_ok s t" and U: "slot_ok s u"
    using assms by (simp_all add: hz_inv_def)
  show "slot_ok (hz_step (t, f) s) u"
  proof (cases "u = t")
    case True
    with T show ?thesis
      by (cases "hz_pc (hz_threads s t)")
         (auto simp: slot_ok_def hz_goto_def hz_return_def hp_store_def scan_loop_def
            outstanding_hazard_pointers_for_def
            split: option.splits list.splits hz_call.splits caller.splits if_splits)
  next
    case False
    with T U show ?thesis
      by (cases "hz_pc (hz_threads s t)")
         (auto simp: slot_ok_def hz_goto_def hz_return_def hp_store_def scan_loop_def
            outstanding_hazard_pointers_for_def
            split: option.splits list.splits hz_call.splits caller.splits if_splits)
  qed
qed

lemma hz_inv_exec: "hz_inv s \<Longrightarrow> hz_inv (hz_exec es s)"
proof (induction es arbitrary: s)
  case Nil
  then show ?case by simp
next
  case (Cons e es)
  then show ?case by (cases e) (simp add: hz_inv_step del: hz_step.simps)
qed

lemma hz_return_goto: "hz_return t r (hz_goto t p s) = hz_return t r s"
  by (simp add: hz_return_def hz_goto_def)

lemma hp_scan_full:
  "hz_pc (hz_threads s t) = Hp_scan i \<Longrightarrow> i + k = max_hazard_pointers \<Longrightarrow>
   \<forall>j<max_hazard_pointers. owner_id (hazard_pointers s j) \<noteq> None \<Longrightarrow>
   hz_exec (replicate (Suc k) (t, f)) s = hz_return t (Threw ResourcesExhausted) s"
proof (induction k arbitrary: i s)
  case 0
  then show ?case by simp
next
  case (Suc k)
  let ?s1 = "hz_goto t (Hp_scan (Suc i)) s"
  have lt: "i < max_hazard_pointers" using Suc.prems(2) by simp
  then have own: "owner_id (hazard_pointers s i) \<noteq> None" using Suc.prems(3) by simp
  have step: "hz_step (t, f) s = ?s1"
    by (simp add: Suc.prems(1) lt own)
  have "hz_exec (replicate (Suc (Suc k)) (t, f)) s = hz_exec (replicate (Suc k) (t, f)) ?s1"
    by (simp only: replicate_Suc hz_exec.simps step)
  also have "\<dots> = hz_return t (Threw ResourcesExhausted) ?s1"
  proof (rule Suc.IH)
    show "hz_pc (hz_threads ?s1 t) = Hp_scan (Suc i)" by (simp add: hz_goto_def)
    show "Suc i + k = max_hazard_pointers" using Suc.prems(2) by simp
    show "\<forall>j<max_hazard_pointers. owner_id (hazard_pointers ?s1 j) \<noteq> None"
      using Suc.prems(3) by (simp add: hz_goto_def)
  qed
  finally show ?case by (simp only: hz_return_goto)
qed

lemma hpop_exhausted:
  assumes "hz_pc (hz_threads s t) = HIdle" and "hz_todo (hz_threads s t) = HPop # cs"
    and "hazard (hz_threads s t) = None"
    and "\<forall>j<max_hazard_pointers. owner_id (hazard_pointers s j) \<noteq> None"
  shows "hz_exec (replicate (max_hazard_pointers + 2) (t, f)) s =
     \<lparr>hz_head = hz_head s, hz_heap = hz_heap s, reclaim_heap = reclaim_heap s, hz_brk = hz_brk s,
      hazard_pointers = hazard_pointers s, nodes_to_reclaim = nodes_to_reclaim s,
      hz_threads = (hz_threads s)
        (t := \<lparr>hz_pc = HIdle, hz_todo = cs,
               hz_results = hz_results (hz_threads s t) @ [Threw ResourcesExhausted],
               hazard = None\<rparr>)\<rparr>"
proof -
  let ?s1 = "hz_step (t, f) s"
  have s1: "?s1 = s\<lparr>hz_threads := (hz_threads s)(t := (hz_threads s t)\<lparr>hz_pc := Hp_scan 0, hz_todo := cs\<rparr>)\<rparr>"
    using assms by simp
  have "hz_exec (replicate (max_hazard_pointers + 2) (t, f)) s
      = hz_exec (replicate (Suc max_hazard_pointers) (t, f)) ?s1"
    by (simp del: hz_step.simps)
  also have "\<dots> = hz_return t (Threw ResourcesExhausted) ?s1"
    by (rule hp_scan_full [where i = 0]) (use assms in \<open>simp_all add: s1\<close>)
  also have "\<dots> = \<lparr>hz_head = hz_head s, hz_heap = hz_heap s, reclaim_heap = reclaim_heap s, hz_brk = hz_brk s,
      hazard_pointers = hazard_pointers s, nodes_to_reclaim = nodes_to_reclaim s,
      hz_threads = (hz_threads s)
        (t := \<lparr>hz_pc = HIdle, hz_todo = cs,
               hz_results = hz_results (hz_threads s t) @ [Threw ResourcesExhausted],
               hazard = None\<rparr>)\<rparr>"
    using assms
    by (simp only: s1) (simp add: hz_return_def; intro hzs.equality hz_thread.equality ext; simp)
  finally show ?thesis .
qed

lemma slot_ok_published:
  "slot_ok s t \<Longrightarrow> publishes (hz_pc (hz_threads s t)) = Some q \<Longrightarrow> hazard_slot_holds s t q"
  by (cases "hz_pc (hz_threads s t)") (auto simp: slot_ok_def hazard_slot_holds_def split: option.splits)

lemma slot_ok_holds:
  "slot_ok s t \<Longrightarrow> needs_slot (hz_pc (hz_threads s t)) \<Longrightarrow> holds_slot s t"
  by (auto simp: slot_ok_def holds_slot_def split: option.splits)

lemma reachable_slot_ok: "slot_ok (hz_exec es (hz_init h nodes b calls)) t"
  using hz_inv_exec [OF hz_inv_init, of es h nodes b calls] by (simp add: hz_inv_def)

lemma hz_returns_in_pop:
  "hz_results (hz_threads (hz_step (t, f) s) t) = hz_results (hz_threads s t) @ [Popped x] \<Longrightarrow>
   needs_slot (hz_pc (hz_threads s t))"
  by (cases "hz_pc (hz_threads s t)")
     (auto simp: hz_goto_def hz_return_def hp_store_def scan_loop_def
        split: option.splits list.splits hz_call.splits caller.splits if_splits)

lemmas hz_eval = hz_init_def hz_goto_def hz_return_def hp_store_def
  scan_loop_def outstanding_hazard_pointers_for_def max_hazard_pointers_def numeral_eq_Suc

text \<open>
  Claim C4. In the hazard-pointer variant's pop, before any compare-and-swap on the head is
  attempted, the thread's hazard slot holds the head value used by that compare-and-swap:
  the inner loop publishes the read head pointer into the hazard slot and re-reads the
  head, repeating until the value read before publishing equals the value read after, and
  only then proceeds. For every state \<open>S\<close> that a schedule reaches from a stack with an
  empty table and idle threads, and every thread \<open>t\<close>: the load of line 270 goes to the
  store; the store puts \<open>old_head\<close> into the slot that \<open>t\<close> holds and goes to the reload; at
  the reload the slot still holds \<open>temp\<close>, and the thread goes back to the store with the
  new head when the two differ, and on (to the read of \<open>next\<close>, or out of the loop when the
  head is null) when they agree; at the read of \<open>old_head->next\<close> and at the
  compare-exchange the slot holds \<open>old_head\<close>, the value the compare-exchange expects; and a
  compare-exchange that fails goes back to the store.
\<close>

theorem hazard_published_before_cas:
  fixes nodes :: "addr \<rightharpoonup> 'a node"
  shows
    "(let S = hz_exec es (hz_init h nodes b calls) in
      (hz_pc (hz_threads S t) = HPop_load \<longrightarrow>
         hz_step (t, f) S = hz_goto t (Hp_store (hz_head S)) S) \<and>
      (hz_pc (hz_threads S t) = Hp_store q \<longrightarrow>
         holds_slot S t \<and>
         hazard_slot_holds (hz_step (t, f) S) t q \<and>
         hz_head (hz_step (t, f) S) = hz_head S \<and>
         hz_pc (hz_threads (hz_step (t, f) S) t) = HPop_reload q) \<and>
      (hz_pc (hz_threads S t) = HPop_reload q \<longrightarrow>
         hazard_slot_holds S t q \<and>
         hz_step (t, f) S =
           hz_goto t
             (if hz_head S \<noteq> q then Hp_store (hz_head S)
              else case hz_head S of None \<Rightarrow> Hp_clear None | Some p \<Rightarrow> HPop_next p) S) \<and>
      (hz_pc (hz_threads S t) = HPop_next p \<longrightarrow> hazard_slot_holds S t (Some p)) \<and>
      (hz_pc (hz_threads S t) = HPop_cas p n \<longrightarrow>
         hazard_slot_holds S t (Some p) \<and>
         hz_step (t, f) S =
           (if hz_head S = Some p then hz_goto t (Hp_clear (Some p)) (S\<lparr>hz_head := n\<rparr>)
            else hz_goto t (Hp_store (hz_head S)) S)))"
proof -
  define S where "S = hz_exec es (hz_init h nodes b calls)"
  have ok: "slot_ok S t"
    unfolding S_def by (rule reachable_slot_ok)
  have 1: "hz_step (t, f) S = hz_goto t (Hp_store (hz_head S)) S"
    if "hz_pc (hz_threads S t) = HPop_load"
    using that by simp
  have 2: "holds_slot S t \<and> hazard_slot_holds (hz_step (t, f) S) t q \<and>
      hz_head (hz_step (t, f) S) = hz_head S \<and>
      hz_pc (hz_threads (hz_step (t, f) S) t) = HPop_reload q"
    if "hz_pc (hz_threads S t) = Hp_store q"
    using that ok
    by (auto simp: slot_ok_def holds_slot_def hazard_slot_holds_def hz_goto_def hp_store_def
        split: option.splits)
  have 3: "hazard_slot_holds S t q \<and>
      hz_step (t, f) S =
           hz_goto t
             (if hz_head S \<noteq> q then Hp_store (hz_head S)
              else case hz_head S of None \<Rightarrow> Hp_clear None | Some p \<Rightarrow> HPop_next p) S"
    if "hz_pc (hz_threads S t) = HPop_reload q"
    using that slot_ok_published [OF ok, of q] by (simp split: option.splits)
  have 4: "hazard_slot_holds S t (Some p)" if "hz_pc (hz_threads S t) = HPop_next p"
    using that slot_ok_published [OF ok, of "Some p"] by simp
  have 5: "hazard_slot_holds S t (Some p) \<and>
      hz_step (t, f) S =
           (if hz_head S = Some p then hz_goto t (Hp_clear (Some p)) (S\<lparr>hz_head := n\<rparr>)
            else hz_goto t (Hp_store (hz_head S)) S)"
    if "hz_pc (hz_threads S t) = HPop_cas p n"
    using that slot_ok_published [OF ok, of "Some p"] by simp
  show ?thesis
    unfolding Let_def S_def [symmetric] using 1 2 3 4 5 by blast
qed

theorem hazard_published_before_cas_witness:
  "hz_pc (hz_threads (hz_step (0, False) (hz_exec (replicate 2 (0, False)) hz_race)) 0)
     = Hp_store (Some 0) \<and>
   hazard_slot_holds (hz_step (0, False) (hz_exec (replicate 3 (0, False)) hz_race)) 0 (Some 0) \<and>
   hz_pc (hz_threads (hz_step (0, False) (hz_exec (replicate 4 (0, False)) hz_race)) 0)
     = HPop_next 0 \<and>
   hazard_slot_holds (hz_exec (replicate 5 (0, False)) hz_race) 0 (Some 0) \<and>
   hazard_slot_holds (hz_exec (replicate 6 (0, False)) hz_race) 0 (Some 0) \<and>
   hz_head (hz_step (0, False) (hz_exec (replicate 6 (0, False)) hz_race)) = None"
proof -
  let ?S = "\<lambda>k. hz_exec (replicate k (0, False)) hz_race"
  have h2: "hz_pc (hz_threads (?S 2) 0) = HPop_load"
    and h3: "hz_pc (hz_threads (?S 3) 0) = Hp_store (Some 0)"
    and h4: "hz_pc (hz_threads (?S 4) 0) = HPop_reload (Some 0)"
    and h5: "hz_pc (hz_threads (?S 5) 0) = HPop_next 0"
    and h6: "hz_pc (hz_threads (?S 6) 0) = HPop_cas 0 None"
    by (simp_all add: hz_race_def hz_eval)
  have hd: "hz_head (?S 2) = Some 0" "hz_head (?S 4) = Some 0" "hz_head (?S 6) = Some 0"
    by (simp_all add: hz_race_def hz_eval)
  note T = hazard_published_before_cas [where h = "Some 0"
      and nodes = "[0 \<mapsto> \<lparr>data = Some (7::nat), nxt = None\<rparr>]" and b = 1
      and calls = "\<lambda>t. if t = 0 \<or> t = 1 then [HPop] else []" and t = 0 and f = False,
      unfolded Let_def, folded hz_race_def]
  note a = T [where es = "replicate 2 (0, False)", THEN conjunct1, THEN mp, OF h2]
  note b = T [where es = "replicate 3 (0, False)" and q = "Some 0",
      THEN conjunct2, THEN conjunct1, THEN mp, OF h3]
  note c = T [where es = "replicate 4 (0, False)" and q = "Some 0",
      THEN conjunct2, THEN conjunct2, THEN conjunct1, THEN mp, OF h4]
  note d = T [where es = "replicate 5 (0, False)" and p = 0,
      THEN conjunct2, THEN conjunct2, THEN conjunct2, THEN conjunct1, THEN mp, OF h5]
  note e = T [where es = "replicate 6 (0, False)" and p = 0 and n = None,
      THEN conjunct2, THEN conjunct2, THEN conjunct2, THEN conjunct2, THEN mp, OF h6]
  have w1: "hz_pc (hz_threads (hz_step (0, False) (?S 2)) 0) = Hp_store (Some 0)"
    by (simp only: a hd) (simp add: hz_goto_def)
  have w2: "hazard_slot_holds (hz_step (0, False) (?S 3)) 0 (Some 0)"
    using b by blast
  have w3: "hz_pc (hz_threads (hz_step (0, False) (?S 4)) 0) = HPop_next 0"
    by (simp only: c [THEN conjunct2] hd) (simp add: hz_goto_def)
  have w5: "hazard_slot_holds (?S 6) 0 (Some 0)"
    using e by blast
  have w6: "hz_head (hz_step (0, False) (?S 6)) = None"
    by (simp only: e [THEN conjunct2] hd) (simp add: hz_goto_def)
  show ?thesis
    using w1 w2 w3 d w5 w6 by (intro conjI)
qed

text \<open>
  Claim C8. When a thread requests a hazard slot and all slots of the fixed-capacity table
  (capacity 100) are owned by other threads, the acquisition fails the whole pop with a
  distinct \<open>ResourcesExhausted\<close> error, never a crash, a silent hang, or a blocked wait. The
  capacity is 100. A pop by a thread without a slot that finds every slot owned ends after
  its entry, one compare-exchange per slot and the throw, with \<open>ResourcesExhausted\<close> as
  its outcome and nothing else changed. Step by step, whatever other threads do in
  between: a compare-exchange on an owned slot moves on to the next index, and at
  \<open>max_hazard_pointers\<close> the constructor throws.
\<close>

theorem hazard_table_exhausted:
  fixes s :: "'a hzs"
  shows
    "max_hazard_pointers = 100 \<and>
     (hz_pc (hz_threads s t) = HIdle \<and> hz_todo (hz_threads s t) = HPop # cs \<and>
      hazard (hz_threads s t) = None \<and>
      (\<forall>j<max_hazard_pointers. owner_id (hazard_pointers s j) \<noteq> None) \<longrightarrow>
        hz_exec (replicate (max_hazard_pointers + 2) (t, f)) s =
          \<lparr>hz_head = hz_head s, hz_heap = hz_heap s, reclaim_heap = reclaim_heap s, hz_brk = hz_brk s,
           hazard_pointers = hazard_pointers s, nodes_to_reclaim = nodes_to_reclaim s,
           hz_threads = (hz_threads s)
             (t := \<lparr>hz_pc = HIdle, hz_todo = cs,
                    hz_results = hz_results (hz_threads s t) @ [Threw ResourcesExhausted],
                    hazard = None\<rparr>)\<rparr>) \<and>
     (hz_pc (hz_threads s t) = Hp_scan i \<and> i < max_hazard_pointers \<and>
      owner_id (hazard_pointers s i) \<noteq> None \<longrightarrow>
        hz_step (t, f) s = hz_goto t (Hp_scan (Suc i)) s) \<and>
     (hz_pc (hz_threads s t) = Hp_scan i \<and> \<not> i < max_hazard_pointers \<longrightarrow>
        hz_step (t, f) s = hz_return t (Threw ResourcesExhausted) s)"
proof (intro conjI impI; (elim conjE)?)
  show "hz_exec (replicate (max_hazard_pointers + 2) (t, f)) s =
          \<lparr>hz_head = hz_head s, hz_heap = hz_heap s, reclaim_heap = reclaim_heap s, hz_brk = hz_brk s,
           hazard_pointers = hazard_pointers s, nodes_to_reclaim = nodes_to_reclaim s,
           hz_threads = (hz_threads s)
             (t := \<lparr>hz_pc = HIdle, hz_todo = cs,
                    hz_results = hz_results (hz_threads s t) @ [Threw ResourcesExhausted],
                    hazard = None\<rparr>)\<rparr>"
    if "hz_pc (hz_threads s t) = HIdle" and "hz_todo (hz_threads s t) = HPop # cs"
      and "hazard (hz_threads s t) = None"
      and "\<forall>j<max_hazard_pointers. owner_id (hazard_pointers s j) \<noteq> None"
    using that by (rule hpop_exhausted)
qed (auto simp: max_hazard_pointers_def)

theorem hazard_table_exhausted_witness:
  "hz_exec (replicate (max_hazard_pointers + 2) (0, False)) hz_full_example =
     \<lparr>hz_head = None, hz_heap = Map.empty, reclaim_heap = Map.empty, hz_brk = 0,
      hazard_pointers = hazard_pointers hz_full_example, nodes_to_reclaim = None,
      hz_threads = (hz_threads hz_full_example)
        (0 := \<lparr>hz_pc = HIdle, hz_todo = [], hz_results = [Threw ResourcesExhausted], hazard = None\<rparr>)\<rparr> \<and>
   hz_step (0, False) (hz_step (0, False) hz_full_example)
     = hz_goto 0 (Hp_scan (Suc 0)) (hz_step (0, False) hz_full_example) \<and>
   hz_step (0, False) (hz_goto 0 (Hp_scan max_hazard_pointers) hz_full_example)
     = hz_return 0 (Threw ResourcesExhausted) (hz_goto 0 (Hp_scan max_hazard_pointers) hz_full_example)"
proof -
  let ?s1 = "hz_step (0, False) hz_full_example"
  let ?s2 = "hz_goto 0 (Hp_scan max_hazard_pointers) hz_full_example"
  have h: "hz_pc (hz_threads hz_full_example 0) = HIdle \<and>
      hz_todo (hz_threads hz_full_example 0) = HPop # [] \<and>
      hazard (hz_threads hz_full_example 0) = None \<and>
      (\<forall>j<max_hazard_pointers. owner_id (hazard_pointers hz_full_example j) \<noteq> None)"
    by (simp add: hz_full_example_def)
  have h1: "hz_pc (hz_threads ?s1 0) = Hp_scan 0 \<and> 0 < max_hazard_pointers \<and>
      owner_id (hazard_pointers ?s1 0) \<noteq> None"
    by (simp add: hz_full_example_def max_hazard_pointers_def)
  have h2: "hz_pc (hz_threads ?s2 0) = Hp_scan max_hazard_pointers \<and>
      \<not> max_hazard_pointers < max_hazard_pointers"
    by (simp add: hz_goto_def)
  have v: "hz_head hz_full_example = None" "hz_heap hz_full_example = Map.empty"
    "reclaim_heap hz_full_example = Map.empty" "hz_brk hz_full_example = 0"
    "nodes_to_reclaim hz_full_example = None" "hz_results (hz_threads hz_full_example 0) = []"
    by (simp_all add: hz_full_example_def)
  note a = hazard_table_exhausted [where s = hz_full_example and t = 0 and cs = "[]" and f = False,
      THEN conjunct2, THEN conjunct1, THEN mp, OF h]
  note b = hazard_table_exhausted [where s = ?s1 and t = 0 and i = 0 and f = False,
      THEN conjunct2, THEN conjunct2, THEN conjunct1, THEN mp, OF h1]
  note c = hazard_table_exhausted [where s = ?s2 and t = 0 and i = max_hazard_pointers and f = False,
      THEN conjunct2, THEN conjunct2, THEN conjunct2, THEN mp, OF h2]
  show ?thesis
    using a b c by (simp only: v append_Nil simp_thms)
qed

text \<open>
  Claim C10. In the hazard-pointer variant, pop acquires the calling thread's hazard slot
  before reading the head, so even a pop on an empty stack can fail with the
  resource-exhaustion error when the hazard table has no free slot for that thread; Empty
  is returned only after slot acquisition succeeds. On an empty stack with every slot
  owned, the pop of a thread without a slot ends with \<open>ResourcesExhausted\<close>. Entering \<open>pop\<close>
  does not read the head: it goes to the constructor of \<open>hp_owner\<close> when the thread has no
  slot yet. In every reachable state a thread at the load of the head holds a slot, and so
  does a thread whose step returns a pointer from \<open>pop\<close>, the null pointer included.
\<close>

theorem pop_acquires_slot_first:
  fixes s :: "'a hzs" and nodes :: "addr \<rightharpoonup> 'a node"
  shows
    "(hz_head s = None \<and>
      hz_pc (hz_threads s t) = HIdle \<and> hz_todo (hz_threads s t) = HPop # cs \<and>
      hazard (hz_threads s t) = None \<and>
      (\<forall>j<max_hazard_pointers. owner_id (hazard_pointers s j) \<noteq> None) \<longrightarrow>
        hz_results (hz_threads (hz_exec (replicate (max_hazard_pointers + 2) (t, f)) s) t)
          = hz_results (hz_threads s t) @ [Threw ResourcesExhausted] \<and>
        hz_pc (hz_threads (hz_exec (replicate (max_hazard_pointers + 2) (t, f)) s) t) = HIdle) \<and>
     (hz_pc (hz_threads s t) = HIdle \<and> hz_todo (hz_threads s t) = HPop # cs \<longrightarrow>
        hz_head (hz_step (t, f) s) = hz_head s \<and>
        hz_pc (hz_threads (hz_step (t, f) s) t)
          = (if hazard (hz_threads s t) = None then Hp_scan 0 else HPop_load)) \<and>
     (let S = hz_exec es (hz_init h nodes b calls) in
        (hz_pc (hz_threads S t) = HPop_load \<longrightarrow> holds_slot S t) \<and>
        (hz_results (hz_threads (hz_step (t, f) S) t) = hz_results (hz_threads S t) @ [Popped x] \<longrightarrow>
           holds_slot S t))"
proof -
  define S where "S = hz_exec es (hz_init h nodes b calls)"
  have ok: "slot_ok S t"
    unfolding S_def by (rule reachable_slot_ok)
  have 1: "hz_results (hz_threads (hz_exec (replicate (max_hazard_pointers + 2) (t, f)) s) t)
          = hz_results (hz_threads s t) @ [Threw ResourcesExhausted] \<and>
        hz_pc (hz_threads (hz_exec (replicate (max_hazard_pointers + 2) (t, f)) s) t) = HIdle"
    if "hz_pc (hz_threads s t) = HIdle" and "hz_todo (hz_threads s t) = HPop # cs"
      and "hazard (hz_threads s t) = None"
      and "\<forall>j<max_hazard_pointers. owner_id (hazard_pointers s j) \<noteq> None"
    by (simp only: hpop_exhausted [OF that]) simp
  have 2: "hz_head (hz_step (t, f) s) = hz_head s \<and>
        hz_pc (hz_threads (hz_step (t, f) s) t)
          = (if hazard (hz_threads s t) = None then Hp_scan 0 else HPop_load)"
    if "hz_pc (hz_threads s t) = HIdle" and "hz_todo (hz_threads s t) = HPop # cs"
    using that by simp
  have 3: "holds_slot S t" if "hz_pc (hz_threads S t) = HPop_load"
    using that by (intro slot_ok_holds [OF ok]) simp
  have 4: "holds_slot S t"
    if "hz_results (hz_threads (hz_step (t, f) S) t) = hz_results (hz_threads S t) @ [Popped x]"
    using that by (intro slot_ok_holds [OF ok] hz_returns_in_pop)
  show ?thesis
    unfolding Let_def S_def [symmetric] using 1 2 3 4 by blast
qed

theorem pop_acquires_slot_first_witness:
  "hz_head hz_full_example = None \<and>
   hz_results (hz_threads (hz_exec (replicate (max_hazard_pointers + 2) (0, False)) hz_full_example) 0)
     = [Threw ResourcesExhausted] \<and>
   hz_pc (hz_threads (hz_step (0, False) hz_full_example) 0) = Hp_scan 0 \<and>
   holds_slot (hz_exec (replicate 2 (0, False)) hz_empty_example) 0 \<and>
   hz_results (hz_threads (hz_step (0, False) (hz_exec (replicate 5 (0, False)) hz_empty_example)) 0)
     = [Popped None] \<and>
   holds_slot (hz_exec (replicate 5 (0, False)) hz_empty_example) 0"
proof -
  let ?S = "\<lambda>k. hz_exec (replicate k (0, False)) hz_empty_example"
  have h: "hz_head hz_full_example = None \<and>
      hz_pc (hz_threads hz_full_example 0) = HIdle \<and>
      hz_todo (hz_threads hz_full_example 0) = HPop # [] \<and>
      hazard (hz_threads hz_full_example 0) = None \<and>
      (\<forall>j<max_hazard_pointers. owner_id (hazard_pointers hz_full_example j) \<noteq> None)"
    by (simp add: hz_full_example_def)
  have h': "hz_pc (hz_threads hz_full_example 0) = HIdle \<and>
      hz_todo (hz_threads hz_full_example 0) = HPop # []"
    and hz: "hazard (hz_threads hz_full_example 0) = None"
    and r0: "hz_results (hz_threads hz_full_example 0) = []"
    by (simp_all add: hz_full_example_def)
  have h2: "hz_pc (hz_threads (?S 2) 0) = HPop_load"
    by (simp add: hz_empty_example_def hz_eval)
  have h5: "hz_results (hz_threads (hz_step (0, False) (?S 5)) 0)
      = hz_results (hz_threads (?S 5) 0) @ [Popped None]"
    and r5: "hz_results (hz_threads (?S 5) 0) = []"
    by (simp_all add: hz_empty_example_def hz_eval)
  note T = pop_acquires_slot_first [where t = 0 and f = False]
  note a = T [where s = hz_full_example and cs = "[]", THEN conjunct1, THEN mp, OF h]
  note b = T [where s = hz_full_example and cs = "[]", THEN conjunct2, THEN conjunct1, THEN mp, OF h']
  note U = T [where h = None and nodes = "Map.empty :: addr \<rightharpoonup> nat node" and b = 0
      and calls = "\<lambda>t. if t = 0 then [HPop] else []",
      unfolded Let_def, folded hz_empty_example_def]
  note c = U [where es = "replicate 2 (0, False)",
      THEN conjunct2, THEN conjunct2, THEN conjunct1, THEN mp, OF h2]
  note d = U [where es = "replicate 5 (0, False)" and x = None,
      THEN conjunct2, THEN conjunct2, THEN conjunct2, THEN mp, OF h5]
  have w1: "hz_head hz_full_example = None" using h by blast
  have w2: "hz_results (hz_threads (hz_exec (replicate (max_hazard_pointers + 2) (0, False))
      hz_full_example) 0) = [Threw ResourcesExhausted]"
    using a by (simp only: r0 append_Nil)
  have w3: "hz_pc (hz_threads (hz_step (0, False) hz_full_example) 0) = Hp_scan 0"
    using b [THEN conjunct2] by (simp only: hz refl if_True)
  have w5: "hz_results (hz_threads (hz_step (0, False) (?S 5)) 0) = [Popped None]"
    using h5 by (simp only: r5 append_Nil)
  show ?thesis
    using w1 w2 w3 c w5 d by (intro conjI)
qed

section \<open>Reclamation in the hazard-pointer variant\<close>

text \<open>
  Claim C1. In the hazard-pointer variant, a node is only ever freed (whether immediately
  after a successful pop or during the retire-list scan) when a full scan of all hazard
  slots shows that no slot currently references that node; equivalently, pop frees the
  popped node immediately only if no other hazard slot protects it, and otherwise appends
  it to the retire list. The source does not keep this. \<open>outstanding_hazard_pointers_for\<close>
  returns false without looking at the table, so the retire-list scan of
  \<open>delete_nodes_with_no_hazards\<close> deletes every entry whatever the slots hold, and so would
  line 294 every popped node. The class has no \<open>push\<close>, so its \<open>pop\<close> never finds a node to
  free; the registry and the retire list are free functions, and the run below goes
  through them. The stack is empty. Thread 0 has announced the object at address 0 in its
  hazard slot, and its call has returned. Thread 1 has handed the object to
  \<open>reclaim_later\<close> and is at line 243 of \<open>delete_nodes_with_no_hazards\<close>. A scan of the table
  finds a slot that references the object, and the slot is the one thread 0 holds. The
  next step of thread 1 deletes the object all the same, and the slot still references it.
\<close>

theorem retire_scan_frees_announced_object:
  "hz_head hz_registry_example = None \<and>
   hz_results (hz_threads (hz_exec (announce_events @ retire_events @ scan_events) hz_registry_example) 0)
     = [Returned] \<and>
   hz_results (hz_threads (hz_exec (announce_events @ retire_events @ scan_events) hz_registry_example) 1)
     = [Returned] \<and>
   hazard_slot_holds (hz_exec (announce_events @ retire_events @ scan_events) hz_registry_example) 0 (Some 0) \<and>
   scan_finds (hz_exec (announce_events @ retire_events @ scan_events) hz_registry_example) 0 \<and>
   \<not> outstanding_hazard_pointers_for (Some 0) \<and>
   hz_pc (hz_threads (hz_exec (announce_events @ retire_events @ scan_events) hz_registry_example) 1)
     = Scan_delete 1 None Direct \<and>
   hz_heap (hz_exec (announce_events @ retire_events @ scan_events) hz_registry_example) 0
     = Some \<lparr>data = Some 7, nxt = None\<rparr> \<and>
   hz_heap (hz_step (1, False)
       (hz_exec (announce_events @ retire_events @ scan_events) hz_registry_example)) 0 = None \<and>
   hazard_slot_holds (hz_step (1, False)
       (hz_exec (announce_events @ retire_events @ scan_events) hz_registry_example)) 0 (Some 0) \<and>
   hz_results (hz_threads (hz_step (1, False)
       (hz_exec (announce_events @ retire_events @ scan_events) hz_registry_example)) 1)
     = [Returned, Returned]"
  by (simp add: hz_registry_example_def announce_events_def retire_events_def scan_events_def
      hz_init_def hz_goto_def hz_return_def hp_store_def scan_loop_def
      outstanding_hazard_pointers_for_def max_hazard_pointers_def
      hazard_slot_holds_def scan_finds_def numeral_eq_Suc)

end
